theory Spec2Isabelle
  imports Complex_Main
begin

section \<open>Data model (types.ts)\<close>

text \<open>
  Numbers of the source are IEEE doubles (and 32-bit floats inside the position
  buffers). They are modelled as mathematical reals: every statement below is about the
  formulas the code evaluates, not about their rounding. Finger counts are the length
  of a filtered array in the tracker, so they are natural numbers.
\<close>

datatype ParticleShape = SPHERE | HEART | FLOWER | SATURN | FIREWORKS

record HandData =
  fingersUp :: nat
  isPinching :: bool
  pinchDistance :: real
  handPosition :: "real \<times> real"
  detected :: bool

section \<open>The application state touched by a hand update (App component)\<close>

text \<open>
  The audio manager is an external object; what the application does to it is the
  sequence of calls it receives. It exists whenever a hand update runs:
  \<^verbatim>\<open>handleStart\<close> creates it before it creates the tracker.
\<close>

datatype audio_call = UpdateInteraction real | PlayShapeChangeSound

record app_state =
  currentShape :: ParticleShape
  handData :: HandData
  gestureBuffer :: "nat list"
  audioCalls :: "audio_call list"

definition GESTURE_BUFFER_SIZE :: nat where
  "GESTURE_BUFFER_SIZE = 15"

text \<open>\<^verbatim>\<open>buffer.push(n); if (buffer.length > GESTURE_BUFFER_SIZE) buffer.shift();\<close>\<close>

definition pushObservation :: "nat list \<Rightarrow> nat \<Rightarrow> nat list" where
  "pushObservation buffer n =
     (let pushed = buffer @ [n]
      in if length pushed > GESTURE_BUFFER_SIZE then tl pushed else pushed)"

text \<open>
  \<^verbatim>\<open>counts[n] = (counts[n] || 0) + 1\<close> on an object whose keys are array indices:
  \<^verbatim>\<open>Object.entries\<close> lists such keys in ascending numeric order, so the entries
  are kept as an association list sorted by key.
\<close>

fun bump :: "(nat \<times> nat) list \<Rightarrow> nat \<Rightarrow> (nat \<times> nat) list" where
  "bump [] n = [(n, 1)]"
| "bump ((k, c) # kvs) n =
     (if n = k then (k, c + 1) # kvs
      else if n < k then (n, 1) # (k, c) # kvs
      else (k, c) # bump kvs n)"

definition countEntries :: "nat list \<Rightarrow> (nat \<times> nat) list" where
  "countEntries buffer = fold (\<lambda>n counts. bump counts n) buffer []"

text \<open>
  \<^verbatim>\<open>Object.entries(counts).find(([_, count]) => count > GESTURE_BUFFER_SIZE * 0.8)\<close>.
  The product \<open>15 * 0.8\<close> is exactly 12 in double arithmetic, as it is over the reals.
\<close>

definition findConsensus :: "nat list \<Rightarrow> (nat \<times> nat) option" where
  "findConsensus buffer =
     find (\<lambda>(fingers, count). real count > real GESTURE_BUFFER_SIZE * 0.8)
       (countEntries buffer)"

text \<open>
  The mapping chain of \<^verbatim>\<open>onHandResults\<close>; \<open>shapeInClosure\<close> is the
  \<^verbatim>\<open>currentShape\<close> the callback closed over, the initial value of \<^verbatim>\<open>newShape\<close>.
\<close>

definition shapeForFingers :: "ParticleShape \<Rightarrow> nat \<Rightarrow> ParticleShape" where
  "shapeForFingers shapeInClosure fingers =
     (if fingers = 2 then FLOWER
      else if fingers = 3 then SATURN
      else if fingers = 4 then HEART
      else if fingers = 5 then FIREWORKS
      else shapeInClosure)"

text \<open>
  \<^verbatim>\<open>changeShape\<close>: the functional update compares with the state itself
  (\<^verbatim>\<open>prev\<close>), plays the sound and empties the buffer only on a real change. The
  updater is run as part of the call.
\<close>

definition changeShape :: "ParticleShape \<Rightarrow> app_state \<Rightarrow> app_state" where
  "changeShape shape st =
     (if currentShape st \<noteq> shape
      then st\<lparr>audioCalls := audioCalls st @ [PlayShapeChangeSound],
              gestureBuffer := [],
              currentShape := shape\<rparr>
      else st)"

text \<open>The audio intensity computed for a detected hand.\<close>

definition pinchIntensity :: "HandData \<Rightarrow> real" where
  "pinchIntensity data =
     (if isPinching data then 1.0
      else (let dist = min (max (pinchDistance data) 0.05) 0.3
            in 1 - ((dist - 0.05) / 0.25)))"

text \<open>
  \<^verbatim>\<open>onHandResults\<close>. It is a \<^verbatim>\<open>useCallback\<close> over \<^verbatim>\<open>[currentShape]\<close>, so the
  \<^verbatim>\<open>currentShape\<close> it reads is the one of the render that created the callback in
  use: the first argument. \<^verbatim>\<open>changeShape\<close> reads the state itself.
\<close>

definition onHandResults :: "ParticleShape \<Rightarrow> HandData \<Rightarrow> app_state \<Rightarrow> app_state" where
  "onHandResults shapeInClosure data st0 =
     (let st1 = st0\<lparr>handData := data\<rparr>
      in if detected data then
           let buffer = pushObservation (gestureBuffer st1) (fingersUp data);
               st2 = st1\<lparr>gestureBuffer := buffer\<rparr>;
               st3 = (case findConsensus buffer of
                        Some (fingers, count) \<Rightarrow>
                          let newShape = shapeForFingers shapeInClosure fingers
                          in if newShape \<noteq> shapeInClosure then changeShape newShape st2
                             else st2
                      | None \<Rightarrow> st2)
           in st3\<lparr>audioCalls := audioCalls st3 @ [UpdateInteraction (pinchIntensity data)]\<rparr>
         else st1\<lparr>audioCalls := audioCalls st1 @ [UpdateInteraction 0]\<rparr>)"

text \<open>
  A run of hand updates. \<open>closure\<close> says which \<^verbatim>\<open>currentShape\<close> the executing
  callback closed over, as a function of the state at the call: \<open>currentShape\<close> for the
  callback of the latest render, \<open>\<lambda>_. SPHERE\<close> for the callback that
  \<^verbatim>\<open>handleStart\<close> handed to the tracker during the first render.
\<close>

fun feed :: "(app_state \<Rightarrow> ParticleShape) \<Rightarrow> HandData list \<Rightarrow> app_state \<Rightarrow> app_state" where
  "feed closure [] st = st"
| "feed closure (data # rest) st = feed closure rest (onHandResults (closure st) data st)"

text \<open>The number of committed shape changes is the number of change sounds played.\<close>

definition shapeChanges :: "app_state \<Rightarrow> nat" where
  "shapeChanges st = count_list (audioCalls st) PlayShapeChangeSound"

text \<open>
  The mode frequency of a window, in the words of the specification: how often its
  most frequent value occurs (0 for the empty window).
\<close>

definition modeFrequency :: "nat list \<Rightarrow> nat" where
  "modeFrequency window = Max (insert 0 (count_list window ` set window))"

text \<open>
  Concrete values: the sample the tracker sends when it finds no hand (the defaults of
  \<^verbatim>\<open>processResults\<close>), the state the application starts in (the initial values of
  its \<^verbatim>\<open>useState\<close> and \<^verbatim>\<open>useRef\<close> hooks), and a sample of a detected open
  hand showing \<open>n\<close> fingers.
\<close>

definition lostHand :: HandData where
  "lostHand = \<lparr>fingersUp = 0, isPinching = False, pinchDistance = 1,
                handPosition = (0.5, 0.5), detected = False\<rparr>"

definition initialState :: app_state where
  "initialState = \<lparr>currentShape = SPHERE, handData = lostHand,
                    gestureBuffer = [], audioCalls = []\<rparr>"

definition openHand :: "nat \<Rightarrow> HandData" where
  "openHand n = \<lparr>fingersUp = n, isPinching = False, pinchDistance = 0.2,
                 handPosition = (0.5, 0.5), detected = True\<rparr>"

section \<open>The particle engine (Nebula3D component)\<close>

type_synonym vec3 = "real \<times> real \<times> real"

definition PARTICLE_COUNT :: nat where
  "PARTICLE_COUNT = 15000"

text \<open>
  \<^verbatim>\<open>Math.random()\<close>: \<open>rnd n\<close> is the \<open>n\<close>-th value the random source returns
  during one pass over the particles. A function that draws takes the number of values
  drawn so far and returns the new number. Nothing is said about the distribution; the
  theorems ask only that each value lies in \<open>[0, 1)\<close>.
\<close>

type_synonym random_source = "nat \<Rightarrow> real"

text \<open>
  The buffers are flat arrays of \<open>3 * PARTICLE_COUNT\<close> numbers; particle \<open>i\<close> owns
  the indices \<open>i * 3\<close>, \<open>i * 3 + 1\<close> and \<open>i * 3 + 2\<close>.
\<close>

definition particleAt :: "real list \<Rightarrow> nat \<Rightarrow> vec3" where
  "particleAt arr i = (let i3 = i * 3 in (arr ! i3, arr ! (i3 + 1), arr ! (i3 + 2)))"

definition setParticle :: "real list \<Rightarrow> nat \<Rightarrow> vec3 \<Rightarrow> real list" where
  "setParticle arr i v =
     (case v of (x, y, z) \<Rightarrow> (let i3 = i * 3 in arr[i3 := x, i3 + 1 := y, i3 + 2 := z]))"

subsection \<open>calculateTargetPositions\<close>

text \<open>The body of the \<^verbatim>\<open>switch\<close>: the point of one particle and the draws it uses.\<close>

definition shapePoint :: "ParticleShape \<Rightarrow> random_source \<Rightarrow> nat \<Rightarrow> vec3 \<times> nat" where
  "shapePoint type rnd k =
     (case type of
        SPHERE \<Rightarrow>
          (let r = 25 + rnd k * 2;
               theta = rnd (k + 1) * pi * 2;
               phi = arccos (2 * rnd (k + 2) - 1)
           in ((r * sin phi * cos theta, r * sin phi * sin theta, r * cos phi), k + 3))
      | HEART \<Rightarrow>
          (let t = rnd k * pi * 2;
               scale = 1.5;
               thick = (rnd (k + 1) - 0.5) * 5
           in ((scale * (16 * sin t ^ 3),
                scale * (13 * cos t - 5 * cos (2 * t) - 2 * cos (3 * t) - cos (4 * t)),
                thick), k + 2))
      | FLOWER \<Rightarrow>
          (let petals = 4;
               theta = rnd k * pi * 2;
               rBase = cos (petals * theta);
               r = (15 + \<bar>rBase\<bar> * 20) * (0.8 + rnd (k + 1) * 0.4)
           in ((r * cos theta, r * sin theta, (rnd (k + 2) - 0.5) * 10), k + 3))
      | SATURN \<Rightarrow>
          (let isRing = rnd k > 0.3;
               (x, y, z) =
                 (if isRing then
                    (let angle = rnd (k + 1) * pi * 2;
                         dist = 35 + rnd (k + 2) * 15
                     in (dist * cos angle, (rnd (k + 3) - 0.5) * 2, dist * sin angle))
                  else
                    (let r = 12 + rnd (k + 1) * 1;
                         theta = rnd (k + 2) * pi * 2;
                         phi = arccos (2 * rnd (k + 3) - 1)
                     in (r * sin phi * cos theta, r * sin phi * sin theta, r * cos phi)));
               tilt = 0.4;
               ty = y * cos tilt - z * sin tilt;
               tz = y * sin tilt + z * cos tilt
           in ((x, ty, tz), k + 4))
      | FIREWORKS \<Rightarrow>
          (let r = rnd k * 50;
               theta = rnd (k + 1) * pi * 2;
               phi = arccos (2 * rnd (k + 2) - 1)
           in ((r * sin phi * cos theta, r * sin phi * sin theta, r * cos phi), k + 3)))"

definition calculateTargetStep ::
    "ParticleShape \<Rightarrow> random_source \<Rightarrow> nat \<Rightarrow> real list \<times> nat \<Rightarrow> real list \<times> nat" where
  "calculateTargetStep type rnd i =
     (\<lambda>(positions, k). let (point, k') = shapePoint type rnd k
                        in (setParticle positions i point, k'))"

definition calculateTargetPositions ::
    "ParticleShape \<Rightarrow> random_source \<Rightarrow> real list \<Rightarrow> real list" where
  "calculateTargetPositions type rnd positions =
     fst (fold (calculateTargetStep type rnd) [0..<PARTICLE_COUNT] (positions, 0))"

subsection \<open>The interaction point\<close>

record interaction =
  ix :: real
  iy :: real
  iz :: real
  isActive :: bool
  isAttracting :: bool

datatype interactionMode = mouse | camera

record perspectiveCamera =
  fov :: real
  aspect :: real
  near :: real
  far :: real
  position :: vec3

text \<open>
  Modelled from the spec: the entries of the camera's projection matrix. The camera and
  its matrices belong to the rendering library (\<^verbatim>\<open>PerspectiveCamera\<close>), which is not
  part of the repository's sources, and the specification only says that the pointer
  is unprojected "through the camera's view/projection transform". The model is the
  perspective projection of a camera that looks along \<open>-z\<close> from \<open>position\<close> without
  rotation, with a vertical field of view of \<open>fov\<close> degrees: a view-space point
  \<open>(x, y, z)\<close> goes to the clip coordinates \<open>(sx * x, sy * y, c * z + d, - z)\<close>, which
  are divided by the last one. \<open>projectionEntries\<close> is \<open>(sx, sy, c, d)\<close>.
\<close>

definition projectionEntries :: "perspectiveCamera \<Rightarrow> real \<times> real \<times> real \<times> real" where
  "projectionEntries cam =
     (let top = near cam * tan (pi / 180 * 0.5 * fov cam);
          height = 2 * top;
          width = aspect cam * height
      in (2 * near cam / width,
          2 * near cam / height,
          - (far cam + near cam) / (far cam - near cam),
          - 2 * far cam * near cam / (far cam - near cam)))"

text \<open>
  Modelled from the spec: the library's \<^verbatim>\<open>Vector3.sub\<close>, component by component.
\<close>

definition sub :: "vec3 \<Rightarrow> vec3 \<Rightarrow> vec3" where
  "sub a b = (case (a, b) of ((ax, ay, az), (bx, by, bz)) \<Rightarrow> (ax - bx, ay - by, az - bz))"

text \<open>
  Modelled from the spec: the library's \<^verbatim>\<open>Vector3.add\<close>, component by component.
\<close>

definition add :: "vec3 \<Rightarrow> vec3 \<Rightarrow> vec3" where
  "add a b = (case (a, b) of ((ax, ay, az), (bx, by, bz)) \<Rightarrow> (ax + bx, ay + by, az + bz))"

text \<open>
  Modelled from the spec: the library's \<^verbatim>\<open>Vector3.multiplyScalar\<close>.
\<close>

definition multiplyScalar :: "vec3 \<Rightarrow> real \<Rightarrow> vec3" where
  "multiplyScalar a s = (case a of (ax, ay, az) \<Rightarrow> (ax * s, ay * s, az * s))"

text \<open>
  Modelled from the spec: the library's \<^verbatim>\<open>Vector3.normalize\<close>, which scales a
  vector to length 1 and leaves the zero vector as it is.
\<close>

definition normalizeVec :: "vec3 \<Rightarrow> vec3" where
  "normalizeVec a =
     (case a of (ax, ay, az) \<Rightarrow>
        (let len = sqrt (ax * ax + ay * ay + az * az)
         in multiplyScalar a (1 / (if len = 0 then 1 else len))))"

text \<open>
  Modelled from the spec: the library's \<^verbatim>\<open>Vector3.project\<close>, world space to
  normalised device coordinates: into view space, through the projection, divided by
  the fourth clip coordinate.
\<close>

definition project :: "perspectiveCamera \<Rightarrow> vec3 \<Rightarrow> vec3" where
  "project cam v =
     (case (projectionEntries cam, sub v (position cam)) of
        ((sx, sy, c, d), (x, y, z)) \<Rightarrow>
          (let w = 1 / (- z) in ((sx * x) * w, (sy * y) * w, (c * z + d) * w)))"

text \<open>
  Modelled from the spec: the library's \<^verbatim>\<open>Vector3.unproject\<close>, the way back: the
  inverse of the projection matrix sends \<open>(x, y, z, 1)\<close> to
  \<open>(x / sx, y / sy, - 1, z / d + c / d)\<close>, which is divided by its fourth coordinate and
  moved from view space to world space.
\<close>

definition unproject :: "perspectiveCamera \<Rightarrow> vec3 \<Rightarrow> vec3" where
  "unproject cam v =
     (case (projectionEntries cam, v) of
        ((sx, sy, c, d), (x, y, z)) \<Rightarrow>
          (let w = 1 / (z / d + c / d)
           in add ((x / sx) * w, (y / sy) * w, (- 1) * w) (position cam)))"

text \<open>
  The start of \<^verbatim>\<open>animate\<close>: hand mode maps the normalised hand position onto the
  visible extents, pointer mode unprojects the pointer and intersects the ray with the
  plane \<open>z = 0\<close> (\<open>mouseWorldPoint\<close> is the \<^verbatim>\<open>pos\<close> of the mouse branch). The
  depth \<open>iz\<close> is never assigned after its initial 30.
\<close>

definition mouseWorldPoint :: "perspectiveCamera \<Rightarrow> real \<times> real \<Rightarrow> vec3" where
  "mouseWorldPoint cam mousePos =
     (let vec = unproject cam (fst mousePos, snd mousePos, 0.5);
          dir = normalizeVec (sub vec (position cam));
          distance = - snd (snd (position cam)) / snd (snd dir)
      in add (position cam) (multiplyScalar dir distance))"

definition locateInteraction ::
    "interactionMode \<Rightarrow> perspectiveCamera \<Rightarrow> HandData \<Rightarrow> real \<times> real \<Rightarrow> bool \<Rightarrow> interaction" where
  "locateInteraction mode cam hand mousePos isMouseDown =
     (if mode = camera \<and> detected hand then
        (let visibleHeight = 2 * tan ((fov cam * pi / 180) / 2) * snd (snd (position cam));
             visibleWidth = visibleHeight * aspect cam
         in \<lparr>ix = (fst (handPosition hand) - 0.5) * visibleWidth,
             iy = - (snd (handPosition hand) - 0.5) * visibleHeight,
             iz = 30, isActive = True, isAttracting = isPinching hand\<rparr>)
      else if mode = mouse then
        (let pos = mouseWorldPoint cam mousePos
         in \<lparr>ix = fst pos, iy = fst (snd pos),
             iz = 30, isActive = True, isAttracting = isMouseDown\<rparr>)
      else \<lparr>ix = 0, iy = 0, iz = 30, isActive = False, isAttracting = False\<rparr>)"

subsection \<open>The per-frame particle update\<close>

definition lerpFactor :: real where
  "lerpFactor = 0.05"

text \<open>Noise / float: the drift added to the shape target.\<close>

definition noiseTarget :: "real \<Rightarrow> nat \<Rightarrow> vec3 \<Rightarrow> vec3" where
  "noiseTarget time i t =
     (case t of (tx, ty, tz) \<Rightarrow>
        (tx + sin (time * 2 + real i) * 0.5, ty + cos (time * 1.5 + real i) * 0.5, tz))"

text \<open>
  Interaction physics: from the particle's position \<open>p\<close> and the target \<open>t\<close> so far
  to the effective target, with the number of random values drawn.
\<close>

definition interactionTarget ::
    "random_source \<Rightarrow> interaction \<Rightarrow> vec3 \<Rightarrow> vec3 \<Rightarrow> nat \<Rightarrow> vec3 \<times> nat" where
  "interactionTarget rnd ia p t k =
     (case (p, t) of ((px, py, pz), (tx, ty, tz)) \<Rightarrow>
        if isActive ia then
          (let dx = ix ia - px;
               dy = iy ia - py;
               dz = iz ia - pz;
               distSq = dx * dx + dy * dy + dz * dz;
               dist = sqrt distSq
           in if isAttracting ia then
                (if dist < 40 then
                   ((ix ia + (rnd k - 0.5) * 5,
                     iy ia + (rnd (k + 1) - 0.5) * 5,
                     iz ia + (rnd (k + 2) - 0.5) * 5), k + 3)
                 else ((tx, ty, tz), k))
              else
                (if dist < 25 then
                   (let force = (25 - dist) / 25
                    in ((tx - dx * force * 2, ty - dy * force * 2, tz - dz * force * 2), k))
                 else ((tx, ty, tz), k)))
        else ((tx, ty, tz), k))"

text \<open>Update position: each axis moves by \<open>lerpFactor\<close> of its distance to the target.\<close>

definition updatePosition :: "vec3 \<Rightarrow> vec3 \<Rightarrow> vec3" where
  "updatePosition p t =
     (case (p, t) of ((px, py, pz), (tx, ty, tz)) \<Rightarrow>
        (px + (tx - px) * lerpFactor, py + (ty - py) * lerpFactor, pz + (tz - pz) * lerpFactor))"

definition animateStep ::
    "random_source \<Rightarrow> interaction \<Rightarrow> real \<Rightarrow> real list \<Rightarrow> nat
      \<Rightarrow> real list \<times> nat \<Rightarrow> real list \<times> nat" where
  "animateStep rnd ia time target i =
     (\<lambda>(positions, k).
        let p = particleAt positions i;
            (t, k') = interactionTarget rnd ia p (noiseTarget time i (particleAt target i)) k
        in (setParticle positions i (updatePosition p t), k'))"

text \<open>
  One animation frame: its interaction, its clock time, the target buffer and the
  random values drawn while it runs.
\<close>

record frame =
  frameInteraction :: interaction
  frameTime :: real
  frameTarget :: "real list"
  frameRandom :: random_source

definition animate :: "frame \<Rightarrow> real list \<Rightarrow> real list" where
  "animate f positions =
     fst (fold (animateStep (frameRandom f) (frameInteraction f) (frameTime f) (frameTarget f))
            [0..<PARTICLE_COUNT] (positions, 0))"

text \<open>Euclidean distance of a point to the interaction point, as \<^verbatim>\<open>dist\<close> computes it.\<close>

definition distanceTo :: "interaction \<Rightarrow> vec3 \<Rightarrow> real" where
  "distanceTo ia p =
     (case p of (px, py, pz) \<Rightarrow>
        sqrt ((ix ia - px) * (ix ia - px) + (iy ia - py) * (iy ia - py)
              + (iz ia - pz) * (iz ia - pz)))"

text \<open>
  Both loops over the particles have one shape: particle \<open>i\<close> is read, a new value is
  computed from it and from the draws, and written back. \<open>particleLoop\<close> is that shape,
  used to reason about the two loops at once.
\<close>

definition particleLoop ::
    "(nat \<Rightarrow> vec3 \<Rightarrow> nat \<Rightarrow> vec3 \<times> nat) \<Rightarrow> nat \<Rightarrow> real list \<times> nat \<Rightarrow> real list \<times> nat" where
  "particleLoop body n =
     fold (\<lambda>i (arr, k). let (v, k') = body i (particleAt arr i) k
                        in (setParticle arr i v, k')) [0..<n]"

text \<open>
  The camera the component creates: \<^verbatim>\<open>new THREE.PerspectiveCamera(75, width / height,
  0.1, 1000)\<close> moved to \<open>z = 80\<close>; the aspect ratio is the window's.
\<close>

definition sceneCamera :: "real \<Rightarrow> perspectiveCamera" where
  "sceneCamera windowAspect =
     \<lparr>fov = 75, aspect = windowAspect, near = 0.1, far = 1000, position = (0, 0, 80)\<rparr>"

text \<open>
  A concrete frame for a given interaction: clock at 0, an all-zero target buffer and a
  random source that always returns one half (so the jitter is zero).
\<close>

definition frameWith :: "interaction \<Rightarrow> frame" where
  "frameWith ia = \<lparr>frameInteraction = ia, frameTime = 0,
                   frameTarget = replicate (PARTICLE_COUNT * 3) 0,
                   frameRandom = (\<lambda>n. 1 / 2)\<rparr>"

text \<open>
  A concrete position buffer: particle 0 at \<open>(0, 0, 25)\<close>, particle 1 at \<open>(0, 0, 20)\<close>,
  all others at the origin.
\<close>

definition twoParticlesNearDepth :: "real list" where
  "twoParticlesNearDepth = [0, 0, 25, 0, 0, 20] @ replicate (PARTICLE_COUNT * 3 - 6) 0"

section \<open>The consensus window\<close>

lemma threshold_iff: "(real count > real GESTURE_BUFFER_SIZE * 0.8) = (12 < count)"
  by (auto simp: GESTURE_BUFFER_SIZE_def)

lemma length_pushObservation:
  "length buffer \<le> GESTURE_BUFFER_SIZE \<Longrightarrow> length (pushObservation buffer n) \<le> GESTURE_BUFFER_SIZE"
  by (auto simp: pushObservation_def Let_def)

lemma bump_keys: "fst ` set (bump kvs n) = insert n (fst ` set kvs)"
  by (induction kvs n rule: bump.induct) auto

lemma bump_sorted:
  "sorted_wrt (<) (map fst kvs) \<Longrightarrow> sorted_wrt (<) (map fst (bump kvs n))"
proof (induction kvs n rule: bump.induct)
  case (1 n)
  then show ?case by simp
next
  case (2 k c kvs n)
  have keys: "fst ` set (bump kvs n) = insert n (fst ` set kvs)" by (rule bump_keys)
  from 2 keys show ?case by (auto simp: image_iff)
qed

lemma bump_lookup:
  "sorted_wrt (<) (map fst kvs) \<Longrightarrow>
   map_of (bump kvs n) m =
     (if m = n then Some (case map_of kvs n of None \<Rightarrow> 1 | Some c \<Rightarrow> c + 1)
      else map_of kvs m)"
proof (induction kvs n rule: bump.induct)
  case (1 n)
  then show ?case by simp
next
  case (2 k c kvs n)
  have absent: "n < k \<Longrightarrow> map_of kvs n = None"
  proof -
    assume "n < k"
    with 2(2) have "n \<notin> fst ` set kvs" by (auto simp: image_iff)
    then show ?thesis by (simp add: map_of_eq_None_iff)
  qed
  from 2 absent show ?case by auto
qed

lemma countEntries_snoc: "countEntries (buffer @ [n]) = bump (countEntries buffer) n"
  by (simp add: countEntries_def)

lemma countEntries_sorted: "sorted_wrt (<) (map fst (countEntries buffer))"
proof (induction buffer rule: rev_induct)
  case Nil
  then show ?case by (simp add: countEntries_def)
next
  case (snoc n buffer)
  then show ?case by (simp add: countEntries_snoc bump_sorted)
qed

lemma countEntries_lookup:
  "map_of (countEntries buffer) m =
     (if m \<in> set buffer then Some (count_list buffer m) else None)"
proof (induction buffer rule: rev_induct)
  case Nil
  then show ?case by (simp add: countEntries_def)
next
  case (snoc n buffer)
  then show ?case
    by (auto simp: countEntries_snoc bump_lookup [OF countEntries_sorted])
qed

lemma countEntries_member:
  "((m, c) \<in> set (countEntries buffer)) = (m \<in> set buffer \<and> c = count_list buffer m)"
proof -
  have "distinct (map fst (countEntries buffer))"
    using countEntries_sorted [of buffer] by (simp add: strict_sorted_iff)
  then have "((m, c) \<in> set (countEntries buffer)) = (map_of (countEntries buffer) m = Some c)"
    by simp
  then show ?thesis by (auto simp: countEntries_lookup)
qed

lemma findConsensus_Some:
  "findConsensus buffer = Some (fingers, count) \<Longrightarrow>
   fingers \<in> set buffer \<and> count = count_list buffer fingers \<and> 12 < count"
proof -
  assume "findConsensus buffer = Some (fingers, count)"
  then have "(fingers, count) \<in> set (countEntries buffer) \<and> 12 < count"
    unfolding findConsensus_def threshold_iff
    by (auto simp: find_Some_iff in_set_conv_nth)
  then show ?thesis by (simp add: countEntries_member)
qed

lemma findConsensus_None:
  "(findConsensus buffer = None) = (\<forall>n. count_list buffer n \<le> 12)"
proof
  assume none: "findConsensus buffer = None"
  show "\<forall>n. count_list buffer n \<le> 12"
  proof
    fix n
    show "count_list buffer n \<le> 12"
    proof (cases "n \<in> set buffer")
      case True
      then have "(n, count_list buffer n) \<in> set (countEntries buffer)"
        by (simp add: countEntries_member)
      with none show ?thesis
        unfolding findConsensus_def threshold_iff by (force simp: find_None_iff)
    next
      case False
      then show ?thesis by (simp add: count_list_0_iff)
    qed
  qed
next
  assume "\<forall>n. count_list buffer n \<le> 12"
  then have "\<forall>n. \<not> 12 < count_list buffer n"
    by (simp add: not_less)
  then have "\<forall>x \<in> set (countEntries buffer). \<not> 12 < snd x"
    by (auto simp: countEntries_member)
  then show "findConsensus buffer = None"
    unfolding findConsensus_def threshold_iff
    by (force simp: find_None_iff)
qed

lemma count_le_modeFrequency: "count_list window n \<le> modeFrequency window"
proof (cases "n \<in> set window")
  case True
  then show ?thesis unfolding modeFrequency_def by (intro Max_ge) auto
next
  case False
  then show ?thesis by (simp add: count_list_0_iff)
qed

section \<open>One hand update\<close>

lemma onHandResults_undetected:
  "\<not> detected data \<Longrightarrow>
   onHandResults closure data st =
     st\<lparr>handData := data, audioCalls := audioCalls st @ [UpdateInteraction 0]\<rparr>"
  by (simp add: onHandResults_def)

lemma onHandResults_no_consensus:
  "detected data \<Longrightarrow>
   findConsensus (pushObservation (gestureBuffer st) (fingersUp data)) = None \<Longrightarrow>
   onHandResults closure data st =
     st\<lparr>handData := data,
        gestureBuffer := pushObservation (gestureBuffer st) (fingersUp data),
        audioCalls := audioCalls st @ [UpdateInteraction (pinchIntensity data)]\<rparr>"
  by (simp add: onHandResults_def Let_def)

text \<open>
  With a consensus, the callback of the first render (closed over \<open>SPHERE\<close>, which no
  gesture maps to) and the callback of the latest render do the same: the comparison
  inside \<^verbatim>\<open>changeShape\<close> is against the state.
\<close>

lemma onHandResults_consensus:
  assumes "detected data"
    and "findConsensus (pushObservation (gestureBuffer st) (fingersUp data)) = Some (fingers, count)"
    and "closure = SPHERE \<or> closure = currentShape st"
  shows "onHandResults closure data st =
     (if shapeForFingers (currentShape st) fingers \<noteq> currentShape st
      then st\<lparr>handData := data,
              gestureBuffer := [],
              currentShape := shapeForFingers (currentShape st) fingers,
              audioCalls := audioCalls st @
                [PlayShapeChangeSound, UpdateInteraction (pinchIntensity data)]\<rparr>
      else st\<lparr>handData := data,
              gestureBuffer := pushObservation (gestureBuffer st) (fingersUp data),
              audioCalls := audioCalls st @ [UpdateInteraction (pinchIntensity data)]\<rparr>)"
  using assms
  by (auto simp: onHandResults_def Let_def changeShape_def shapeForFingers_def)

lemma onHandResults_first_render_closure:
  "onHandResults SPHERE data st = onHandResults (currentShape st) data st"
proof (cases "detected data")
  case False
  then show ?thesis by (simp add: onHandResults_undetected)
next
  case True
  show ?thesis
  proof (cases "findConsensus (pushObservation (gestureBuffer st) (fingersUp data))")
    case None
    with True show ?thesis by (simp add: onHandResults_no_consensus)
  next
    case (Some entry)
    obtain fingers count where "entry = (fingers, count)" by (cases entry)
    with True Some show ?thesis by (simp add: onHandResults_consensus)
  qed
qed

lemma pinchIntensity_range: "0 \<le> pinchIntensity data \<and> pinchIntensity data \<le> 1"
  by (simp add: pinchIntensity_def Let_def min_def max_def)

lemma shapeChanges_simps:
  "shapeChanges (st\<lparr>handData := h\<rparr>) = shapeChanges st"
  "shapeChanges (st\<lparr>gestureBuffer := b\<rparr>) = shapeChanges st"
  "shapeChanges (st\<lparr>currentShape := s\<rparr>) = shapeChanges st"
  "shapeChanges (st\<lparr>audioCalls := audioCalls st @ [UpdateInteraction v]\<rparr>) = shapeChanges st"
  "shapeChanges (st\<lparr>audioCalls := audioCalls st @ [PlayShapeChangeSound, UpdateInteraction v]\<rparr>)
     = shapeChanges st + 1"
  by (simp_all add: shapeChanges_def)

section \<open>Runs of hand updates\<close>

lemma feed_append: "feed closure (xs @ ys) st = feed closure ys (feed closure xs st)"
  by (induction xs arbitrary: st) auto

lemma short_window_no_consensus: "length window \<le> 12 \<Longrightarrow> findConsensus window = None"
proof -
  assume short: "length window \<le> 12"
  have "\<forall>n. count_list window n \<le> 12"
  proof
    fix n
    have "count_list window n \<le> length window" by (rule count_le_length)
    with short show "count_list window n \<le> 12" by simp
  qed
  then show ?thesis by (simp add: findConsensus_None)
qed

lemma pushObservation_short:
  "length buffer < GESTURE_BUFFER_SIZE \<Longrightarrow> pushObservation buffer n = buffer @ [n]"
  by (simp add: pushObservation_def)

lemma count_list_replicate: "count_list (replicate k x) y = (if x = y then k else 0)"
  by (induction k) auto

lemma feed_below_threshold:
  "list_all detected samples \<Longrightarrow>
   length (gestureBuffer st) + length samples \<le> 12 \<Longrightarrow>
   currentShape (feed closure samples st) = currentShape st
   \<and> gestureBuffer (feed closure samples st) = gestureBuffer st @ map fingersUp samples
   \<and> shapeChanges (feed closure samples st) = shapeChanges st"
proof (induction samples arbitrary: st)
  case Nil
  then show ?case by simp
next
  case (Cons data rest)
  let ?w = "gestureBuffer st @ [fingersUp data]"
  let ?st = "onHandResults (closure st) data st"
  have push: "pushObservation (gestureBuffer st) (fingersUp data) = ?w"
    using Cons.prems(2) by (simp add: pushObservation_short GESTURE_BUFFER_SIZE_def)
  have "length ?w \<le> 12" using Cons.prems(2) by simp
  then have none: "findConsensus ?w = None" by (rule short_window_no_consensus)
  have step: "?st = st\<lparr>handData := data, gestureBuffer := ?w,
      audioCalls := audioCalls st @ [UpdateInteraction (pinchIntensity data)]\<rparr>"
    using Cons.prems(1) none push by (simp add: onHandResults_no_consensus)
  have changes: "shapeChanges ?st = shapeChanges st"
    unfolding step by (simp add: shapeChanges_def)
  have shape: "currentShape ?st = currentShape st"
    unfolding step by simp
  have window: "gestureBuffer ?st = ?w"
    unfolding step by simp
  have "list_all detected rest" using Cons.prems(1) by simp
  moreover have "length (gestureBuffer ?st) + length rest \<le> 12"
    unfolding window using Cons.prems(2) by simp
  ultimately have
    "currentShape (feed closure rest ?st) = currentShape ?st
     \<and> gestureBuffer (feed closure rest ?st) = gestureBuffer ?st @ map fingersUp rest
     \<and> shapeChanges (feed closure rest ?st) = shapeChanges ?st"
    by (rule Cons.IH)
  then show ?case using changes shape window by simp
qed

lemma thirteenth_commits:
  assumes "detected data" and "fingersUp data = n"
    and "gestureBuffer st = replicate 12 n"
    and "closure = SPHERE \<or> closure = currentShape st"
    and "shapeForFingers (currentShape st) n \<noteq> currentShape st"
  shows "currentShape (onHandResults closure data st) = shapeForFingers (currentShape st) n
    \<and> gestureBuffer (onHandResults closure data st) = []
    \<and> shapeChanges (onHandResults closure data st) = shapeChanges st + 1"
proof -
  let ?w = "pushObservation (gestureBuffer st) (fingersUp data)"
  have w: "?w = replicate 13 n"
    using assms(2,3)
    by (simp add: pushObservation_short GESTURE_BUFFER_SIZE_def replicate_append_same
        flip: replicate_Suc)
  have "12 < count_list ?w n" unfolding w by (simp add: count_list_replicate)
  then have "findConsensus ?w \<noteq> None" by (auto simp: findConsensus_None not_le)
  then obtain fingers count where found: "findConsensus ?w = Some (fingers, count)"
    by auto
  then have "fingers \<in> set ?w" by (simp add: findConsensus_Some)
  then have "fingers = n" unfolding w by simp
  with found have found_n: "findConsensus ?w = Some (n, count)" by simp
  show ?thesis
    unfolding onHandResults_consensus [OF assms(1) found_n assms(4)]
    using assms(5) by (simp add: shapeChanges_def)
qed

section \<open>Claims about the gesture consensus filter\<close>

text \<open>
  C1. From an empty window and a current shape other than Saturn, 13 observations of 3
  followed by 2 observations of 2 commit a change to Saturn exactly once: nothing is
  committed by the first 12 observations, the 13th makes Saturn the current shape,
  counts one change and leaves the window empty, and the two observations of 2 that
  follow commit nothing (the window then holds one and two entries, no value of which
  reaches the threshold). The samples are any detected hand samples with these finger
  counts; the callback is the one of the latest render or the one of the first render.
\<close>

theorem thirteen_threes_then_two_twos:
  assumes empty: "gestureBuffer st = []"
    and other: "currentShape st \<noteq> SATURN"
    and closure: "closure = currentShape \<or> closure = (\<lambda>st. SPHERE)"
    and det: "list_all detected samples"
    and fingers: "map fingersUp samples = replicate 13 3 @ replicate 2 2"
  shows "(\<forall>k<13. currentShape (feed closure (take k samples) st) = currentShape st
            \<and> shapeChanges (feed closure (take k samples) st) = shapeChanges st)
    \<and> (\<forall>k\<in>{13..15}. currentShape (feed closure (take k samples) st) = SATURN
            \<and> shapeChanges (feed closure (take k samples) st) = shapeChanges st + 1
            \<and> gestureBuffer (feed closure (take k samples) st) = replicate (k - 13) 2
            \<and> findConsensus (gestureBuffer (feed closure (take k samples) st)) = None)"
proof -
  have "length (map fingersUp samples) = 15" unfolding fingers by simp
  then have len: "length samples = 15" by simp
  have det_take: "list_all detected (take k samples)" for k
    using det by (auto simp: list_all_iff dest: in_set_takeD)
  have det_rest: "list_all detected (take j (drop 13 samples))" for j
    using det by (auto simp: list_all_iff dest: in_set_takeD in_set_dropD)
  have quiet: "currentShape (feed closure (take k samples) st) = currentShape st
      \<and> gestureBuffer (feed closure (take k samples) st) = replicate k 3
      \<and> shapeChanges (feed closure (take k samples) st) = shapeChanges st"
    if "k \<le> 12" for k
  proof -
    have "length (gestureBuffer st) + length (take k samples) \<le> 12"
      using empty len that by simp
    note below = feed_below_threshold [OF det_take this, of closure]
    have "map fingersUp (take k samples) = take k (map fingersUp samples)"
      by (simp add: take_map)
    also have "\<dots> = replicate k 3" unfolding fingers using that by simp
    finally show ?thesis using below empty by simp
  qed
  let ?s12 = "feed closure (take 12 samples) st"
  let ?d = "samples ! 12"
  have "detected ?d" using det len by (simp add: list_all_length)
  moreover have "fingersUp ?d = map fingersUp samples ! 12" using len by simp
  then have "fingersUp ?d = 3" unfolding fingers by (simp add: nth_append)
  moreover have "gestureBuffer ?s12 = replicate 12 3" using quiet [of 12] by simp
  moreover have "closure ?s12 = SPHERE \<or> closure ?s12 = currentShape ?s12"
    using closure by auto
  moreover have "shapeForFingers (currentShape ?s12) 3 \<noteq> currentShape ?s12"
    using quiet [of 12] other by (simp add: shapeForFingers_def)
  ultimately have commit:
    "currentShape (onHandResults (closure ?s12) ?d ?s12) = shapeForFingers (currentShape ?s12) 3
     \<and> gestureBuffer (onHandResults (closure ?s12) ?d ?s12) = []
     \<and> shapeChanges (onHandResults (closure ?s12) ?d ?s12) = shapeChanges ?s12 + 1"
    by (rule thirteenth_commits)
  have "take 13 samples = take 12 samples @ [?d]"
    using take_Suc_conv_app_nth [of 12 samples] len by simp
  then have s13: "feed closure (take 13 samples) st = onHandResults (closure ?s12) ?d ?s12"
    by (simp add: feed_append)
  let ?s13 = "feed closure (take 13 samples) st"
  have committed: "currentShape ?s13 = SATURN \<and> gestureBuffer ?s13 = []
      \<and> shapeChanges ?s13 = shapeChanges st + 1"
    unfolding s13 using commit quiet [of 12] by (simp add: shapeForFingers_def)
  have after: "currentShape (feed closure (take k samples) st) = SATURN
      \<and> shapeChanges (feed closure (take k samples) st) = shapeChanges st + 1
      \<and> gestureBuffer (feed closure (take k samples) st) = replicate (k - 13) 2
      \<and> findConsensus (gestureBuffer (feed closure (take k samples) st)) = None"
    if "13 \<le> k" and "k \<le> 15" for k
  proof -
    let ?rest = "take (k - 13) (drop 13 samples)"
    have "take (13 + (k - 13)) samples = take 13 samples @ ?rest" by (rule take_add)
    then have split: "feed closure (take k samples) st = feed closure ?rest ?s13"
      using that(1) by (simp add: feed_append)
    have "length (gestureBuffer ?s13) + length ?rest \<le> 12"
      using committed len that by simp
    note below = feed_below_threshold [OF det_rest this, of closure]
    have "map fingersUp ?rest = take (k - 13) (drop 13 (map fingersUp samples))"
      by (simp add: take_map drop_map)
    also have "\<dots> = replicate (k - 13) 2" unfolding fingers using that by simp
    finally have window: "gestureBuffer (feed closure ?rest ?s13) = replicate (k - 13) 2"
      using below committed by simp
    have "length (replicate (k - 13) (2::nat)) \<le> 12" using that by simp
    then have "findConsensus (replicate (k - 13) 2) = None"
      by (rule short_window_no_consensus)
    with window below committed show ?thesis unfolding split by simp
  qed
  have first: "\<forall>k<13. currentShape (feed closure (take k samples) st) = currentShape st
      \<and> shapeChanges (feed closure (take k samples) st) = shapeChanges st"
    using quiet by simp
  have second: "\<forall>k\<in>{13..15}. currentShape (feed closure (take k samples) st) = SATURN
      \<and> shapeChanges (feed closure (take k samples) st) = shapeChanges st + 1
      \<and> gestureBuffer (feed closure (take k samples) st) = replicate (k - 13) 2
      \<and> findConsensus (gestureBuffer (feed closure (take k samples) st)) = None"
  proof
    fix k :: nat
    assume "k \<in> {13..15}"
    then have "13 \<le> k" and "k \<le> 15" by simp_all
    then show "currentShape (feed closure (take k samples) st) = SATURN
      \<and> shapeChanges (feed closure (take k samples) st) = shapeChanges st + 1
      \<and> gestureBuffer (feed closure (take k samples) st) = replicate (k - 13) 2
      \<and> findConsensus (gestureBuffer (feed closure (take k samples) st)) = None"
      by (rule after)
  qed
  from first second show ?thesis by (rule conjI)
qed

theorem thirteen_threes_then_two_twos_witness:
  "gestureBuffer initialState = [] \<and> currentShape initialState \<noteq> SATURN
   \<and> list_all detected (replicate 13 (openHand 3) @ replicate 2 (openHand 2))
   \<and> currentShape (feed currentShape (replicate 12 (openHand 3)) initialState) = SPHERE
   \<and> shapeChanges (feed currentShape (replicate 12 (openHand 3)) initialState) = 0
   \<and> currentShape (feed currentShape (replicate 13 (openHand 3)) initialState) = SATURN
   \<and> gestureBuffer (feed currentShape (replicate 13 (openHand 3)) initialState) = []
   \<and> shapeChanges (feed currentShape (replicate 13 (openHand 3)) initialState) = 1
   \<and> currentShape
        (feed currentShape (replicate 13 (openHand 3) @ replicate 2 (openHand 2)) initialState)
        = SATURN
   \<and> gestureBuffer
        (feed currentShape (replicate 13 (openHand 3) @ replicate 2 (openHand 2)) initialState)
        = [2, 2]
   \<and> shapeChanges
        (feed currentShape (replicate 13 (openHand 3) @ replicate 2 (openHand 2)) initialState)
        = 1"
proof -
  let ?samples = "replicate 13 (openHand 3) @ replicate 2 (openHand 2)"
  have h1: "gestureBuffer initialState = []" by (simp add: initialState_def)
  have h2: "currentShape initialState \<noteq> SATURN" by (simp add: initialState_def)
  have h3: "currentShape = currentShape \<or> currentShape = (\<lambda>st. SPHERE)" by simp
  have h4: "list_all detected ?samples" by (simp add: list_all_iff openHand_def)
  have h5: "map fingersUp ?samples = replicate 13 3 @ replicate 2 2"
    by (simp add: openHand_def)
  note run = thirteen_threes_then_two_twos [OF h1 h2 h3 h4 h5]
  have zero: "shapeChanges initialState = 0" "currentShape initialState = SPHERE"
    by (simp_all add: shapeChanges_def initialState_def)
  from run have "currentShape (feed currentShape (take 12 ?samples) initialState)
        = currentShape initialState
      \<and> shapeChanges (feed currentShape (take 12 ?samples) initialState)
        = shapeChanges initialState"
    by simp
  then have a: "currentShape (feed currentShape (replicate 12 (openHand 3)) initialState) = SPHERE
      \<and> shapeChanges (feed currentShape (replicate 12 (openHand 3)) initialState) = 0"
    using zero by simp
  have in13: "(13::nat) \<in> {13..15}" and in15: "(15::nat) \<in> {13..15}" by simp_all
  from run in13 have "currentShape (feed currentShape (take 13 ?samples) initialState) = SATURN
      \<and> shapeChanges (feed currentShape (take 13 ?samples) initialState)
          = shapeChanges initialState + 1
      \<and> gestureBuffer (feed currentShape (take 13 ?samples) initialState) = replicate (13 - 13) 2"
    by blast
  then have b: "currentShape (feed currentShape (replicate 13 (openHand 3)) initialState) = SATURN
      \<and> shapeChanges (feed currentShape (replicate 13 (openHand 3)) initialState) = 1
      \<and> gestureBuffer (feed currentShape (replicate 13 (openHand 3)) initialState) = []"
    using zero by simp
  from run in15 have "currentShape (feed currentShape (take 15 ?samples) initialState) = SATURN
      \<and> shapeChanges (feed currentShape (take 15 ?samples) initialState)
          = shapeChanges initialState + 1
      \<and> gestureBuffer (feed currentShape (take 15 ?samples) initialState) = replicate (15 - 13) 2"
    by blast
  then have c: "currentShape (feed currentShape ?samples initialState) = SATURN
      \<and> shapeChanges (feed currentShape ?samples initialState) = 1
      \<and> gestureBuffer (feed currentShape ?samples initialState) = [2, 2]"
    using zero by (simp add: numeral_2_eq_2)
  from h1 h2 h4 a b c show ?thesis by simp
qed

text \<open>
  C2. The consensus check is made on the window as it stands after the observation has
  been appended (and the oldest entry evicted). If the most frequent value of that
  window occurs exactly 12 times, the update finds no consensus and commits nothing:
  shape and change count stay, the window is kept. In general a consensus exists exactly
  when some value occurs strictly more than 12 times, which is what
  \<open>count > GESTURE_BUFFER_SIZE * 0.8\<close> means for a whole count.
\<close>

theorem twelve_of_fifteen_is_no_consensus:
  assumes "detected data"
    and "modeFrequency (pushObservation (gestureBuffer st) (fingersUp data)) = 12"
  shows "findConsensus (pushObservation (gestureBuffer st) (fingersUp data)) = None
    \<and> currentShape (onHandResults closure data st) = currentShape st
    \<and> gestureBuffer (onHandResults closure data st)
        = pushObservation (gestureBuffer st) (fingersUp data)
    \<and> shapeChanges (onHandResults closure data st) = shapeChanges st
    \<and> (\<forall>window. (findConsensus window \<noteq> None) = (\<exists>n. 12 < count_list window n))
    \<and> (\<forall>count. (real count > real GESTURE_BUFFER_SIZE * 0.8) = (12 < count))"
proof -
  let ?w = "pushObservation (gestureBuffer st) (fingersUp data)"
  have "\<forall>n. count_list ?w n \<le> 12"
    using count_le_modeFrequency [of ?w] assms(2) by simp
  then have none: "findConsensus ?w = None" by (simp add: findConsensus_None)
  have step: "onHandResults closure data st =
      st\<lparr>handData := data, gestureBuffer := ?w,
         audioCalls := audioCalls st @ [UpdateInteraction (pinchIntensity data)]\<rparr>"
    using assms(1) none by (rule onHandResults_no_consensus)
  have iff: "\<forall>window. (findConsensus window \<noteq> None) = (\<exists>n. 12 < count_list window n)"
    by (auto simp: findConsensus_None not_le)
  have thr: "\<forall>count. (real count > real GESTURE_BUFFER_SIZE * 0.8) = (12 < count)"
    using threshold_iff by blast
  have changes: "shapeChanges (onHandResults closure data st) = shapeChanges st"
    unfolding step by (simp add: shapeChanges_def)
  have shape: "currentShape (onHandResults closure data st) = currentShape st"
    unfolding step by simp
  have window: "gestureBuffer (onHandResults closure data st) = ?w"
    unfolding step by simp
  from none shape window changes iff thr show ?thesis by blast
qed

theorem twelve_of_fifteen_is_no_consensus_witness:
  "detected (openHand 3)
   \<and> modeFrequency (pushObservation [3, 3, 3, 3, 3, 3, 3, 3, 3, 3, 3, 2, 2, 2] 3) = 12
   \<and> length (pushObservation [3, 3, 3, 3, 3, 3, 3, 3, 3, 3, 3, 2, 2, 2] 3) = 15
   \<and> findConsensus (pushObservation [3, 3, 3, 3, 3, 3, 3, 3, 3, 3, 3, 2, 2, 2] 3) = None
   \<and> currentShape
        (onHandResults SPHERE (openHand 3)
          (initialState\<lparr>gestureBuffer := [3, 3, 3, 3, 3, 3, 3, 3, 3, 3, 3, 2, 2, 2]\<rparr>))
        = SPHERE
   \<and> shapeChanges
        (onHandResults SPHERE (openHand 3)
          (initialState\<lparr>gestureBuffer := [3, 3, 3, 3, 3, 3, 3, 3, 3, 3, 3, 2, 2, 2]\<rparr>))
        = 0"
proof -
  let ?st = "initialState\<lparr>gestureBuffer := [3, 3, 3, 3, 3, 3, 3, 3, 3, 3, 3, 2, 2, 2]\<rparr>"
  have h1: "detected (openHand 3)" by (simp add: openHand_def)
  have window: "pushObservation (gestureBuffer ?st) (fingersUp (openHand 3))
      = [3, 3, 3, 3, 3, 3, 3, 3, 3, 3, 3, 2, 2, 2, 3]"
    by (simp add: pushObservation_def GESTURE_BUFFER_SIZE_def openHand_def)
  have h2: "modeFrequency (pushObservation (gestureBuffer ?st) (fingersUp (openHand 3))) = 12"
    unfolding window by (simp add: modeFrequency_def)
  have zero: "shapeChanges ?st = 0" "currentShape ?st = SPHERE"
    by (simp_all add: shapeChanges_def initialState_def)
  have same: "pushObservation [3, 3, 3, 3, 3, 3, 3, 3, 3, 3, 3, 2, 2, 2] 3
      = pushObservation (gestureBuffer ?st) (fingersUp (openHand 3))"
    by (simp add: openHand_def)
  from twelve_of_fifteen_is_no_consensus [OF h1 h2, of SPHERE] h1 h2 zero window
  show ?thesis unfolding same by simp
qed

text \<open>
  C3. When the update reaches a consensus value, what is committed follows the table
  2 to Flower, 3 to Saturn, 4 to Heart, 5 to Fireworks: a mapped shape that differs from
  the current one becomes the current shape, the window is emptied and one change is
  counted. Any other consensus value (0 and 1 among them) keeps shape and window, and so
  does a consensus whose shape is already the current one. This holds for the callback
  of the latest render and for the one created in the first render.
\<close>

theorem consensus_commits_mapped_shape:
  assumes "detected data"
    and "closure = SPHERE \<or> closure = currentShape st"
    and "findConsensus (pushObservation (gestureBuffer st) (fingersUp data)) = Some (fingers, count)"
  shows "(\<forall>shape. (fingers, shape) \<in> {(2, FLOWER), (3, SATURN), (4, HEART), (5, FIREWORKS)}
            \<and> shape \<noteq> currentShape st
          \<longrightarrow> currentShape (onHandResults closure data st) = shape
            \<and> gestureBuffer (onHandResults closure data st) = []
            \<and> shapeChanges (onHandResults closure data st) = shapeChanges st + 1)
    \<and> (\<forall>shape. (fingers, shape) \<in> {(2, FLOWER), (3, SATURN), (4, HEART), (5, FIREWORKS)}
            \<and> shape = currentShape st
          \<longrightarrow> currentShape (onHandResults closure data st) = currentShape st
            \<and> gestureBuffer (onHandResults closure data st)
                = pushObservation (gestureBuffer st) (fingersUp data)
            \<and> shapeChanges (onHandResults closure data st) = shapeChanges st)
    \<and> (fingers \<notin> {2, 3, 4, 5}
          \<longrightarrow> currentShape (onHandResults closure data st) = currentShape st
            \<and> gestureBuffer (onHandResults closure data st)
                = pushObservation (gestureBuffer st) (fingersUp data)
            \<and> shapeChanges (onHandResults closure data st) = shapeChanges st)"
  unfolding onHandResults_consensus [OF assms(1) assms(3) assms(2)]
  by (auto simp: shapeForFingers_def shapeChanges_def)

theorem consensus_commits_mapped_shape_witness:
  "detected (openHand 3)
   \<and> findConsensus (pushObservation [3, 3, 3, 3, 3, 3, 3, 3, 3, 3, 3, 3] 3) = Some (3, 13)
   \<and> currentShape
        (onHandResults SPHERE (openHand 3)
          (initialState\<lparr>gestureBuffer := [3, 3, 3, 3, 3, 3, 3, 3, 3, 3, 3, 3]\<rparr>))
        = SATURN
   \<and> gestureBuffer
        (onHandResults SPHERE (openHand 3)
          (initialState\<lparr>gestureBuffer := [3, 3, 3, 3, 3, 3, 3, 3, 3, 3, 3, 3]\<rparr>))
        = []
   \<and> shapeChanges
        (onHandResults SPHERE (openHand 3)
          (initialState\<lparr>gestureBuffer := [3, 3, 3, 3, 3, 3, 3, 3, 3, 3, 3, 3]\<rparr>))
        = 1"
proof -
  let ?st = "initialState\<lparr>gestureBuffer := [3, 3, 3, 3, 3, 3, 3, 3, 3, 3, 3, 3]\<rparr>"
  have h1: "detected (openHand 3)" by (simp add: openHand_def)
  have h2: "SPHERE = SPHERE \<or> SPHERE = currentShape ?st" by simp
  have window: "pushObservation (gestureBuffer ?st) (fingersUp (openHand 3))
      = [3, 3, 3, 3, 3, 3, 3, 3, 3, 3, 3, 3, 3]"
    by (simp add: pushObservation_def GESTURE_BUFFER_SIZE_def openHand_def)
  have found: "findConsensus [3, 3, 3, 3, 3, 3, 3, 3, 3, 3, 3, 3, 3] = Some (3, 13)"
    unfolding findConsensus_def threshold_iff by (simp add: countEntries_def)
  have h3: "findConsensus (pushObservation (gestureBuffer ?st) (fingersUp (openHand 3)))
      = Some (3, 13)"
    unfolding window by (rule found)
  have zero: "shapeChanges ?st = 0" "currentShape ?st \<noteq> SATURN"
    by (simp_all add: shapeChanges_def initialState_def)
  have same: "pushObservation [3, 3, 3, 3, 3, 3, 3, 3, 3, 3, 3, 3] 3
      = pushObservation (gestureBuffer ?st) (fingersUp (openHand 3))"
    by (simp add: openHand_def)
  from consensus_commits_mapped_shape [OF h1 h2 h3] zero
  have "currentShape (onHandResults SPHERE (openHand 3) ?st) = SATURN
      \<and> gestureBuffer (onHandResults SPHERE (openHand 3) ?st) = []
      \<and> shapeChanges (onHandResults SPHERE (openHand 3) ?st) = 1"
    by simp
  with h1 h3 show ?thesis unfolding same by simp
qed

text \<open>
  C9. Every hand update sends exactly one intensity to the audio manager, as its last
  call (a change sound may precede it). The value is 1 for a detected pinching hand,
  \<open>1 - (clamp(pinchDistance, 0.05, 0.3) - 0.05) / 0.25\<close> for a detected hand that does
  not pinch, and 0 when no hand is detected; in every case it lies between 0 and 1.
\<close>

theorem emitted_intensity_in_unit_interval:
  "\<exists>before v.
     audioCalls (onHandResults closure data st) = audioCalls st @ before @ [UpdateInteraction v]
     \<and> (before = [] \<or> before = [PlayShapeChangeSound])
     \<and> v = (if detected data
            then (if isPinching data then 1
                  else 1 - (min (max (pinchDistance data) 0.05) 0.3 - 0.05) / 0.25)
            else 0)
     \<and> 0 \<le> v \<and> v \<le> 1"
proof -
  have range: "0 \<le> pinchIntensity data \<and> pinchIntensity data \<le> 1"
    by (rule pinchIntensity_range)
  have formula: "pinchIntensity data =
      (if isPinching data then 1
       else 1 - (min (max (pinchDistance data) 0.05) 0.3 - 0.05) / 0.25)"
    by (simp add: pinchIntensity_def Let_def)
  show ?thesis
  proof (cases "detected data")
    case False
    then show ?thesis by (simp add: onHandResults_undetected)
  next
    case True
    have "audioCalls (onHandResults closure data st)
            = audioCalls st @ [] @ [UpdateInteraction (pinchIntensity data)]
        \<or> audioCalls (onHandResults closure data st)
            = audioCalls st @ [PlayShapeChangeSound] @ [UpdateInteraction (pinchIntensity data)]"
      using True
      by (auto simp: onHandResults_def Let_def changeShape_def split: option.splits)
    with True range formula show ?thesis by (metis (full_types))
  qed
qed

text \<open>
  C10. A sample with \<open>detected = False\<close> leaves the gesture window as it is (nothing
  appended, evicted or cleared) and commits no shape change. Its effects are two: the
  sample becomes the current hand data (\<^verbatim>\<open>setHandData\<close>, which is what deactivates
  the interaction point), and the audio manager receives the intensity 0.
\<close>

theorem undetected_hand_freezes_window:
  assumes "\<not> detected data"
  shows "onHandResults closure data st
      = st\<lparr>handData := data, audioCalls := audioCalls st @ [UpdateInteraction 0]\<rparr>
    \<and> gestureBuffer (onHandResults closure data st) = gestureBuffer st
    \<and> currentShape (onHandResults closure data st) = currentShape st
    \<and> shapeChanges (onHandResults closure data st) = shapeChanges st"
  using assms by (simp add: onHandResults_undetected shapeChanges_def)

theorem undetected_hand_freezes_window_witness:
  "\<not> detected lostHand
   \<and> onHandResults SPHERE lostHand (initialState\<lparr>gestureBuffer := [3, 3], handData := openHand 3\<rparr>)
      = initialState\<lparr>gestureBuffer := [3, 3], handData := lostHand,
                      audioCalls := [UpdateInteraction 0]\<rparr>
   \<and> gestureBuffer
        (onHandResults SPHERE lostHand
          (initialState\<lparr>gestureBuffer := [3, 3], handData := openHand 3\<rparr>)) = [3, 3]"
proof -
  have h: "\<not> detected lostHand" by (simp add: lostHand_def)
  from undetected_hand_freezes_window [OF h, of SPHERE
      "initialState\<lparr>gestureBuffer := [3, 3], handData := openHand 3\<rparr>"] h
  show ?thesis by (simp add: initialState_def)
qed

text \<open>
  The update is not limited to the audio call: after a detected sample, a lost hand
  replaces the stored hand data, so the state differs from the old one with only the
  audio call added.
\<close>

theorem undetected_hand_only_audio_counterexample:
  "\<not> detected lostHand
   \<and> onHandResults SPHERE lostHand (initialState\<lparr>handData := openHand 3\<rparr>)
      \<noteq> (initialState\<lparr>handData := openHand 3\<rparr>)
          \<lparr>audioCalls := audioCalls (initialState\<lparr>handData := openHand 3\<rparr>) @ [UpdateInteraction 0]\<rparr>
   \<and> handData (onHandResults SPHERE lostHand (initialState\<lparr>handData := openHand 3\<rparr>)) = lostHand
   \<and> handData (initialState\<lparr>handData := openHand 3\<rparr>) = openHand 3
   \<and> lostHand \<noteq> openHand 3"
proof -
  have differ: "lostHand \<noteq> openHand 3"
  proof
    assume "lostHand = openHand 3"
    then have "detected lostHand = detected (openHand 3)" by simp
    then show False by (simp add: lostHand_def openHand_def)
  qed
  have stored: "handData (onHandResults SPHERE lostHand (initialState\<lparr>handData := openHand 3\<rparr>))
      = lostHand"
    by (simp add: onHandResults_def lostHand_def)
  have "onHandResults SPHERE lostHand (initialState\<lparr>handData := openHand 3\<rparr>)
      \<noteq> (initialState\<lparr>handData := openHand 3\<rparr>)
          \<lparr>audioCalls := audioCalls (initialState\<lparr>handData := openHand 3\<rparr>) @ [UpdateInteraction 0]\<rparr>"
  proof
    assume "onHandResults SPHERE lostHand (initialState\<lparr>handData := openHand 3\<rparr>)
      = (initialState\<lparr>handData := openHand 3\<rparr>)
          \<lparr>audioCalls := audioCalls (initialState\<lparr>handData := openHand 3\<rparr>) @ [UpdateInteraction 0]\<rparr>"
    then have "handData (onHandResults SPHERE lostHand (initialState\<lparr>handData := openHand 3\<rparr>))
      = openHand 3"
      by simp
    with stored differ show False by simp
  qed
  with stored differ show ?thesis by (simp add: lostHand_def)
qed

section \<open>The loops over the particle buffers\<close>

lemma length_setParticle: "length (setParticle arr i v) = length arr"
  by (cases v) (simp add: setParticle_def Let_def)

lemma nth_setParticle_other:
  "j \<noteq> i * 3 \<Longrightarrow> j \<noteq> i * 3 + 1 \<Longrightarrow> j \<noteq> i * 3 + 2 \<Longrightarrow> setParticle arr i v ! j = arr ! j"
  by (cases v) (simp add: setParticle_def Let_def)

lemma particleAt_setParticle_same:
  "i * 3 + 2 < length arr \<Longrightarrow> particleAt (setParticle arr i v) i = v"
  by (cases v) (simp add: particleAt_def setParticle_def Let_def)

lemma particleAt_setParticle_other:
  "j \<noteq> i \<Longrightarrow> particleAt (setParticle arr i v) j = particleAt arr j"
proof -
  assume "j \<noteq> i"
  then have "j * 3 \<noteq> i * 3" "j * 3 \<noteq> i * 3 + 1" "j * 3 \<noteq> i * 3 + 2"
    "j * 3 + 1 \<noteq> i * 3" "j * 3 + 1 \<noteq> i * 3 + 1" "j * 3 + 1 \<noteq> i * 3 + 2"
    "j * 3 + 2 \<noteq> i * 3" "j * 3 + 2 \<noteq> i * 3 + 1" "j * 3 + 2 \<noteq> i * 3 + 2"
    by presburger+
  then show ?thesis
    by (simp add: particleAt_def Let_def nth_setParticle_other)
qed

lemma particleAt_cong:
  "arr ! (i * 3) = arr' ! (i * 3) \<Longrightarrow> arr ! (i * 3 + 1) = arr' ! (i * 3 + 1) \<Longrightarrow>
   arr ! (i * 3 + 2) = arr' ! (i * 3 + 2) \<Longrightarrow> particleAt arr i = particleAt arr' i"
  by (simp add: particleAt_def Let_def)

lemma particleLoop_Suc:
  "particleLoop body (Suc n) s =
     (case particleLoop body n s of
        (arr, k) \<Rightarrow> (case body n (particleAt arr n) k of
                      (v, k') \<Rightarrow> (setParticle arr n v, k')))"
  by (simp add: particleLoop_def split: prod.splits)

lemma particleLoop_spec:
  "particleLoop body n (arr, k) = (arr', k') \<Longrightarrow> n * 3 \<le> length arr \<Longrightarrow>
   length arr' = length arr
   \<and> (\<forall>j. n * 3 \<le> j \<longrightarrow> arr' ! j = arr ! j)
   \<and> (\<forall>i<n. \<exists>ki. particleAt arr' i = fst (body i (particleAt arr i) ki))"
proof (induction n arbitrary: arr' k')
  case 0
  then show ?case by (simp add: particleLoop_def)
next
  case (Suc n)
  obtain arr1 k1 where run: "particleLoop body n (arr, k) = (arr1, k1)"
    by (cases "particleLoop body n (arr, k)")
  obtain v k2 where body: "body n (particleAt arr1 n) k1 = (v, k2)"
    by (cases "body n (particleAt arr1 n) k1")
  have arr': "arr' = setParticle arr1 n v"
    using Suc.prems(1) run body by (simp add: particleLoop_Suc)
  have "n * 3 \<le> length arr" using Suc.prems(2) by simp
  with run have ih: "length arr1 = length arr"
    "\<forall>j. n * 3 \<le> j \<longrightarrow> arr1 ! j = arr ! j"
    "\<forall>i<n. \<exists>ki. particleAt arr1 i = fst (body i (particleAt arr i) ki)"
    using Suc.IH by blast+
  have len: "length arr' = length arr"
    by (simp add: arr' length_setParticle ih(1))
  have rest: "\<forall>j. Suc n * 3 \<le> j \<longrightarrow> arr' ! j = arr ! j"
  proof (intro allI impI)
    fix j
    assume "Suc n * 3 \<le> j"
    then have "j \<noteq> n * 3" "j \<noteq> n * 3 + 1" "j \<noteq> n * 3 + 2" "n * 3 \<le> j" by simp_all
    then show "arr' ! j = arr ! j"
      using ih(2) by (simp add: arr' nth_setParticle_other)
  qed
  have unread: "particleAt arr1 n = particleAt arr n"
    using ih(2) by (intro particleAt_cong) simp_all
  have written: "\<forall>i<Suc n. \<exists>ki. particleAt arr' i = fst (body i (particleAt arr i) ki)"
  proof (intro allI impI)
    fix i
    assume "i < Suc n"
    show "\<exists>ki. particleAt arr' i = fst (body i (particleAt arr i) ki)"
    proof (cases "i = n")
      case True
      have "n * 3 + 2 < length arr1" using Suc.prems(2) ih(1) by simp
      then have "particleAt arr' n = v" by (simp add: arr' particleAt_setParticle_same)
      also have "v = fst (body n (particleAt arr n) k1)" using body unread by simp
      finally show ?thesis using True by blast
    next
      case False
      with \<open>i < Suc n\<close> have "i < n" by simp
      with ih(3) obtain ki where "particleAt arr1 i = fst (body i (particleAt arr i) ki)"
        by blast
      with False show ?thesis by (auto simp: arr' particleAt_setParticle_other)
    qed
  qed
  from len rest written show ?case by blast
qed

lemma animate_particleLoop:
  "animate f positions =
     fst (particleLoop
       (\<lambda>i p k. case interactionTarget (frameRandom f) (frameInteraction f) p
                        (noiseTarget (frameTime f) i (particleAt (frameTarget f) i)) k of
                   (t, k') \<Rightarrow> (updatePosition p t, k'))
       PARTICLE_COUNT (positions, 0))"
proof -
  have "animateStep (frameRandom f) (frameInteraction f) (frameTime f) (frameTarget f)
      = (\<lambda>i (arr, k).
           let (v, k') =
             (case interactionTarget (frameRandom f) (frameInteraction f) (particleAt arr i)
                     (noiseTarget (frameTime f) i (particleAt (frameTarget f) i)) k of
                (t, k') \<Rightarrow> (updatePosition (particleAt arr i) t, k'))
           in (setParticle arr i v, k'))"
    by (auto simp: animateStep_def fun_eq_iff Let_def split: prod.splits)
  then show ?thesis by (simp add: animate_def particleLoop_def)
qed

lemma calculateTargetPositions_particleLoop:
  "calculateTargetPositions type rnd positions =
     fst (particleLoop (\<lambda>i p k. shapePoint type rnd k) PARTICLE_COUNT (positions, 0))"
proof -
  have "calculateTargetStep type rnd
      = (\<lambda>i (arr, k). let (v, k') = shapePoint type rnd k in (setParticle arr i v, k'))"
    by (auto simp: calculateTargetStep_def fun_eq_iff)
  then show ?thesis by (simp add: calculateTargetPositions_def particleLoop_def)
qed

text \<open>What one frame does to one particle, and what a regeneration writes for it.\<close>

lemma animate_particle:
  assumes "length positions = PARTICLE_COUNT * 3" and "i < PARTICLE_COUNT"
  shows "\<exists>k. particleAt (animate f positions) i =
      updatePosition (particleAt positions i)
        (fst (interactionTarget (frameRandom f) (frameInteraction f) (particleAt positions i)
               (noiseTarget (frameTime f) i (particleAt (frameTarget f) i)) k))"
proof -
  let ?body = "\<lambda>i p k. case interactionTarget (frameRandom f) (frameInteraction f) p
                        (noiseTarget (frameTime f) i (particleAt (frameTarget f) i)) k of
                   (t, k') \<Rightarrow> (updatePosition p t, k')"
  obtain arr' k' where run: "particleLoop ?body PARTICLE_COUNT (positions, 0) = (arr', k')"
    by (cases "particleLoop ?body PARTICLE_COUNT (positions, 0)")
  have "PARTICLE_COUNT * 3 \<le> length positions" using assms(1) by simp
  with run have "\<forall>i<PARTICLE_COUNT. \<exists>ki.
      particleAt arr' i = fst (?body i (particleAt positions i) ki)"
    using particleLoop_spec [of ?body] by blast
  with assms(2) obtain ki where "particleAt arr' i = fst (?body i (particleAt positions i) ki)"
    by blast
  moreover have "animate f positions = arr'" by (simp add: animate_particleLoop run)
  ultimately show ?thesis by (auto simp: split_beta)
qed

lemma length_animate:
  "length positions = PARTICLE_COUNT * 3 \<Longrightarrow> length (animate f positions) = PARTICLE_COUNT * 3"
proof -
  assume len: "length positions = PARTICLE_COUNT * 3"
  let ?body = "\<lambda>i p k. case interactionTarget (frameRandom f) (frameInteraction f) p
                        (noiseTarget (frameTime f) i (particleAt (frameTarget f) i)) k of
                   (t, k') \<Rightarrow> (updatePosition p t, k')"
  obtain arr' k' where run: "particleLoop ?body PARTICLE_COUNT (positions, 0) = (arr', k')"
    by (cases "particleLoop ?body PARTICLE_COUNT (positions, 0)")
  have "PARTICLE_COUNT * 3 \<le> length positions" using len by simp
  with run have "length arr' = length positions"
    using particleLoop_spec [of ?body] by blast
  then show ?thesis by (simp add: animate_particleLoop run len)
qed

lemma calculateTargetPositions_particle:
  assumes "length positions = PARTICLE_COUNT * 3" and "i < PARTICLE_COUNT"
  shows "\<exists>k. particleAt (calculateTargetPositions type rnd positions) i
      = fst (shapePoint type rnd k)"
proof -
  let ?body = "\<lambda>(i::nat) (p::vec3) k. shapePoint type rnd k"
  obtain arr' k' where run: "particleLoop ?body PARTICLE_COUNT (positions, 0) = (arr', k')"
    by (cases "particleLoop ?body PARTICLE_COUNT (positions, 0)")
  have "PARTICLE_COUNT * 3 \<le> length positions" using assms(1) by simp
  with run have "\<forall>i<PARTICLE_COUNT. \<exists>ki.
      particleAt arr' i = fst (?body i (particleAt positions i) ki)"
    using particleLoop_spec [of ?body] by blast
  with assms(2) obtain ki where "particleAt arr' i = fst (shapePoint type rnd ki)"
    by blast
  moreover have "calculateTargetPositions type rnd positions = arr'"
    by (simp add: calculateTargetPositions_particleLoop run)
  ultimately show ?thesis by auto
qed

lemma particleAt_replicate:
  "i < PARTICLE_COUNT \<Longrightarrow> particleAt (replicate (PARTICLE_COUNT * 3) v) i = (v, v, v)"
  by (simp add: particleAt_def Let_def)

lemma sqrt_144: "sqrt 144 = 12"
proof -
  have "sqrt 144 = sqrt (12\<^sup>2)" by simp
  also have "\<dots> = 12" by simp
  finally show ?thesis .
qed

section \<open>Generated shapes\<close>

lemma spherical_norm:
  "(r * sin phi * cos theta)\<^sup>2 + (r * sin phi * sin theta)\<^sup>2 + (r * cos phi)\<^sup>2 = r\<^sup>2"
  for r phi theta :: real
proof -
  have "(r * sin phi * cos theta)\<^sup>2 + (r * sin phi * sin theta)\<^sup>2 + (r * cos phi)\<^sup>2
      = r\<^sup>2 * ((sin phi)\<^sup>2 * ((cos theta)\<^sup>2 + (sin theta)\<^sup>2) + (cos phi)\<^sup>2)"
    by (simp only: power_mult_distrib distrib_left mult.assoc)
  also have "\<dots> = r\<^sup>2" by simp
  finally show ?thesis .
qed

lemma sphere_point:
  "fst (shapePoint SPHERE rnd k) =
     (let r = 25 + rnd k * 2;
          theta = rnd (k + 1) * pi * 2;
          phi = arccos (2 * rnd (k + 2) - 1)
      in (r * sin phi * cos theta, r * sin phi * sin theta, r * cos phi))"
  by (simp add: shapePoint_def Let_def)


lemma fireworks_point:
  "fst (shapePoint FIREWORKS rnd k) =
     (let r = rnd k * 50;
          theta = rnd (k + 1) * pi * 2;
          phi = arccos (2 * rnd (k + 2) - 1)
      in (r * sin phi * cos theta, r * sin phi * sin theta, r * cos phi))"
  by (simp add: shapePoint_def Let_def)

lemma sphere_point_radius:
  assumes "0 \<le> rnd k" and "rnd k < 1"
  shows "\<exists>r. 25 \<le> r \<and> r \<le> 27
    \<and> (case fst (shapePoint SPHERE rnd k) of (x, y, z) \<Rightarrow> x\<^sup>2 + y\<^sup>2 + z\<^sup>2 = r\<^sup>2)"
proof -
  let ?r = "25 + rnd k * 2"
  have lower: "25 \<le> ?r" using assms by simp
  have upper: "?r \<le> 27" using assms by simp
  have "case fst (shapePoint SPHERE rnd k) of (x, y, z) \<Rightarrow> x\<^sup>2 + y\<^sup>2 + z\<^sup>2 = ?r\<^sup>2"
    unfolding sphere_point Let_def prod.case by (rule spherical_norm)
  with lower upper show ?thesis by (intro exI [of _ ?r] conjI)
qed

lemma fireworks_point_radius:
  assumes "0 \<le> rnd k" and "rnd k < 1"
  shows "\<exists>r. 0 \<le> r \<and> r \<le> 50
    \<and> (case fst (shapePoint FIREWORKS rnd k) of (x, y, z) \<Rightarrow> x\<^sup>2 + y\<^sup>2 + z\<^sup>2 = r\<^sup>2)"
proof -
  let ?r = "rnd k * 50"
  have lower: "0 \<le> ?r" using assms by simp
  have upper: "?r \<le> 50" using assms by simp
  have "case fst (shapePoint FIREWORKS rnd k) of (x, y, z) \<Rightarrow> x\<^sup>2 + y\<^sup>2 + z\<^sup>2 = ?r\<^sup>2"
    unfolding fireworks_point Let_def prod.case by (rule spherical_norm)
  with lower upper show ?thesis by (intro exI [of _ ?r] conjI)
qed


text \<open>
  C7. Whatever values in \<open>[0, 1)\<close> the random source returns, every particle of a
  regenerated Sphere target lies at a distance \<open>r\<close> from the origin with
  \<open>25 \<le> r \<le> 27\<close>, and every particle of a Fireworks target at a distance \<open>r\<close> with
  \<open>0 \<le> r \<le> 50\<close>: \<open>x\<^sup>2 + y\<^sup>2 + z\<^sup>2 = r\<^sup>2\<close>.
\<close>

theorem sphere_and_fireworks_radius:
  assumes "\<forall>n. 0 \<le> rnd n \<and> rnd n < 1"
    and "length positions = PARTICLE_COUNT * 3"
    and "i < PARTICLE_COUNT"
  shows "(\<exists>r. 25 \<le> r \<and> r \<le> 27
            \<and> (case particleAt (calculateTargetPositions SPHERE rnd positions) i of
                 (x, y, z) \<Rightarrow> x\<^sup>2 + y\<^sup>2 + z\<^sup>2 = r\<^sup>2))
    \<and> (\<exists>r. 0 \<le> r \<and> r \<le> 50
            \<and> (case particleAt (calculateTargetPositions FIREWORKS rnd positions) i of
                 (x, y, z) \<Rightarrow> x\<^sup>2 + y\<^sup>2 + z\<^sup>2 = r\<^sup>2))"
proof (rule conjI)
  obtain k where at: "particleAt (calculateTargetPositions SPHERE rnd positions) i
      = fst (shapePoint SPHERE rnd k)"
    using calculateTargetPositions_particle [OF assms(2,3)] by blast
  have "0 \<le> rnd k" and "rnd k < 1" using assms(1) by simp_all
  then show "\<exists>r. 25 \<le> r \<and> r \<le> 27
      \<and> (case particleAt (calculateTargetPositions SPHERE rnd positions) i of
           (x, y, z) \<Rightarrow> x\<^sup>2 + y\<^sup>2 + z\<^sup>2 = r\<^sup>2)"
    unfolding at by (rule sphere_point_radius)
next
  obtain k where at: "particleAt (calculateTargetPositions FIREWORKS rnd positions) i
      = fst (shapePoint FIREWORKS rnd k)"
    using calculateTargetPositions_particle [OF assms(2,3)] by blast
  have "0 \<le> rnd k" and "rnd k < 1" using assms(1) by simp_all
  then show "\<exists>r. 0 \<le> r \<and> r \<le> 50
      \<and> (case particleAt (calculateTargetPositions FIREWORKS rnd positions) i of
           (x, y, z) \<Rightarrow> x\<^sup>2 + y\<^sup>2 + z\<^sup>2 = r\<^sup>2)"
    unfolding at by (rule fireworks_point_radius)
qed

theorem sphere_and_fireworks_radius_witness:
  "(\<forall>n. (0::real) \<le> (\<lambda>n. 1 / 2) n \<and> (\<lambda>n. 1 / 2) n < (1::real))
   \<and> length (replicate (PARTICLE_COUNT * 3) (0::real)) = PARTICLE_COUNT * 3
   \<and> 7 < PARTICLE_COUNT
   \<and> (\<exists>r. 25 \<le> r \<and> r \<le> 27
         \<and> (case particleAt (calculateTargetPositions SPHERE (\<lambda>n. 1 / 2)
                               (replicate (PARTICLE_COUNT * 3) 0)) 7 of
              (x, y, z) \<Rightarrow> x\<^sup>2 + y\<^sup>2 + z\<^sup>2 = r\<^sup>2))
   \<and> (\<exists>r. 0 \<le> r \<and> r \<le> 50
         \<and> (case particleAt (calculateTargetPositions FIREWORKS (\<lambda>n. 1 / 2)
                               (replicate (PARTICLE_COUNT * 3) 0)) 7 of
              (x, y, z) \<Rightarrow> x\<^sup>2 + y\<^sup>2 + z\<^sup>2 = r\<^sup>2))"
proof -
  have h1: "\<forall>n. (0::real) \<le> (\<lambda>n. 1 / 2) n \<and> (\<lambda>n. 1 / 2) n < (1::real)" by simp
  have h2: "length (replicate (PARTICLE_COUNT * 3) (0::real)) = PARTICLE_COUNT * 3" by simp
  have h3: "7 < PARTICLE_COUNT" by (simp add: PARTICLE_COUNT_def)
  note radius = sphere_and_fireworks_radius [OF h1 h2 h3]
  show ?thesis
    by (intro conjI h1 h2 h3 conjunct1 [OF radius] conjunct2 [OF radius])
qed

section \<open>One particle in one frame\<close>

lemma interactionTarget_inactive:
  "\<not> isActive ia \<Longrightarrow> interactionTarget rnd ia p t k = (t, k)"
  by (cases p, cases t) (simp add: interactionTarget_def)

lemma interactionTarget_repel:
  assumes "isActive ia" and "\<not> isAttracting ia"
  shows "fst (interactionTarget rnd ia (px, py, pz) (tx, ty, tz) k) =
     (if distanceTo ia (px, py, pz) < 25
      then (tx - (ix ia - px) * ((25 - distanceTo ia (px, py, pz)) / 25) * 2,
            ty - (iy ia - py) * ((25 - distanceTo ia (px, py, pz)) / 25) * 2,
            tz - (iz ia - pz) * ((25 - distanceTo ia (px, py, pz)) / 25) * 2)
      else (tx, ty, tz))"
  using assms by (simp add: interactionTarget_def distanceTo_def Let_def)

lemma interactionTarget_attract:
  assumes "isActive ia" and "isAttracting ia"
  shows "fst (interactionTarget rnd ia (px, py, pz) t k) =
     (if distanceTo ia (px, py, pz) < 40
      then (ix ia + (rnd k - 0.5) * 5, iy ia + (rnd (k + 1) - 0.5) * 5,
            iz ia + (rnd (k + 2) - 0.5) * 5)
      else t)"
  using assms by (cases t) (simp add: interactionTarget_def distanceTo_def Let_def)

lemma distanceTo_nonneg: "0 \<le> distanceTo ia p"
  by (cases p) (simp add: distanceTo_def)

lemma push_length:
  fixes a b c s :: real
  assumes "0 \<le> s"
  shows "sqrt ((a * s)\<^sup>2 + (b * s)\<^sup>2 + (c * s)\<^sup>2) = s * sqrt (a * a + b * b + c * c)"
proof -
  have "(a * s)\<^sup>2 + (b * s)\<^sup>2 + (c * s)\<^sup>2 = s\<^sup>2 * (a * a + b * b + c * c)"
    by (simp add: power2_eq_square algebra_simps)
  then have "sqrt ((a * s)\<^sup>2 + (b * s)\<^sup>2 + (c * s)\<^sup>2) = sqrt (s\<^sup>2) * sqrt (a * a + b * b + c * c)"
    by (simp only: real_sqrt_mult)
  also have "sqrt (s\<^sup>2) = s" using assms by simp
  finally show ?thesis .
qed

lemma push_at_most:
  fixes d :: real
  shows "2 * d * (25 - d) / 25 \<le> 12.5"
proof -
  have "0 \<le> (d - 25 / 2)\<^sup>2" by simp
  also have "(d - 25 / 2)\<^sup>2 = 625 / 4 - d * (25 - d)"
    by (simp add: power2_eq_square algebra_simps)
  finally have "d * (25 - d) \<le> 625 / 4" by simp
  then show ?thesis by simp
qed

lemma sqrt_25: "sqrt 25 = 5"
proof -
  have "sqrt 25 = sqrt (5\<^sup>2)" by simp
  also have "\<dots> = 5" by simp
  finally show ?thesis .
qed

lemma sqrt_100: "sqrt 100 = 10"
proof -
  have "sqrt 100 = sqrt (10\<^sup>2)" by simp
  also have "\<dots> = 10" by simp
  finally show ?thesis .
qed

lemma animate_repelled:
  assumes "length positions = PARTICLE_COUNT * 3" and "i < PARTICLE_COUNT"
    and "isActive (frameInteraction f)" and "\<not> isAttracting (frameInteraction f)"
    and "particleAt positions i = (px, py, pz)"
    and "noiseTarget (frameTime f) i (particleAt (frameTarget f) i) = (tx, ty, tz)"
  shows "particleAt (animate f positions) i =
     updatePosition (px, py, pz)
       (if distanceTo (frameInteraction f) (px, py, pz) < 25
        then (tx - (ix (frameInteraction f) - px)
                   * ((25 - distanceTo (frameInteraction f) (px, py, pz)) / 25) * 2,
              ty - (iy (frameInteraction f) - py)
                   * ((25 - distanceTo (frameInteraction f) (px, py, pz)) / 25) * 2,
              tz - (iz (frameInteraction f) - pz)
                   * ((25 - distanceTo (frameInteraction f) (px, py, pz)) / 25) * 2)
        else (tx, ty, tz))"
proof -
  obtain k where "particleAt (animate f positions) i =
      updatePosition (px, py, pz)
        (fst (interactionTarget (frameRandom f) (frameInteraction f) (px, py, pz) (tx, ty, tz) k))"
    using animate_particle [OF assms(1,2), of f] assms(5,6) by auto
  then show ?thesis unfolding interactionTarget_repel [OF assms(3,4)] .
qed


lemma distanceTo_from_particle:
  "distanceTo ia (px, py, pz)
     = sqrt ((px - ix ia) * (px - ix ia) + (py - iy ia) * (py - iy ia)
             + (pz - iz ia) * (pz - iz ia))"
proof -
  have flip: "(a - b) * (a - b) = (b - a) * (b - a)" for a b :: real
    by (simp add: algebra_simps)
  show ?thesis
    unfolding distanceTo_def prod.case
    by (simp only: flip [of "ix ia" px] flip [of "iy ia" py] flip [of "iz ia" pz])
qed

text \<open>
  C5. In a frame whose interaction is active and not attracting, a particle at distance
  \<open>d < 25\<close> from the interaction point gets \<open>force = (25 - d) / 25\<close>, which lies in
  \<open>(0, 1]\<close>, and its target (shape target plus drift) is moved by the vector from the
  interaction point to the particle times \<open>2 * force\<close>, added on each axis; the position
  then moves toward that target. The factor is larger for every position that is closer
  to the interaction point, but the push itself has length
  \<open>2 * force * d = 2 * d * (25 - d) / 25\<close>, which is at most 12.5 and is zero for a particle
  at the interaction point. A particle at distance 25 or more moves toward its target
  with drift, as without interaction.
\<close>

theorem repulsion_offsets_target:
  assumes "length positions = PARTICLE_COUNT * 3" and "i < PARTICLE_COUNT"
    and "isActive (frameInteraction f)" and "\<not> isAttracting (frameInteraction f)"
    and "particleAt positions i = (px, py, pz)"
    and "noiseTarget (frameTime f) i (particleAt (frameTarget f) i) = (tx, ty, tz)"
    and "d = distanceTo (frameInteraction f) (px, py, pz)"
    and "force = (25 - d) / 25"
  shows "(d < 25 \<longrightarrow>
            0 < force \<and> force \<le> 1
            \<and> particleAt (animate f positions) i =
                updatePosition (px, py, pz)
                  (tx + (px - ix (frameInteraction f)) * (2 * force),
                   ty + (py - iy (frameInteraction f)) * (2 * force),
                   tz + (pz - iz (frameInteraction f)) * (2 * force))
            \<and> sqrt (((px - ix (frameInteraction f)) * (2 * force))\<^sup>2
                    + ((py - iy (frameInteraction f)) * (2 * force))\<^sup>2
                    + ((pz - iz (frameInteraction f)) * (2 * force))\<^sup>2) = 2 * force * d
            \<and> 2 * force * d = 2 * d * (25 - d) / 25
            \<and> 2 * force * d \<le> 12.5
            \<and> (\<forall>qx qy qz ux uy uz k.
                  distanceTo (frameInteraction f) (qx, qy, qz) < d \<longrightarrow>
                  (\<exists>closerForce. force < closerForce \<and> closerForce \<le> 1
                     \<and> fst (interactionTarget (frameRandom f) (frameInteraction f)
                              (qx, qy, qz) (ux, uy, uz) k)
                       = (ux + (qx - ix (frameInteraction f)) * (2 * closerForce),
                          uy + (qy - iy (frameInteraction f)) * (2 * closerForce),
                          uz + (qz - iz (frameInteraction f)) * (2 * closerForce)))))
    \<and> (25 \<le> d \<longrightarrow> particleAt (animate f positions) i = updatePosition (px, py, pz) (tx, ty, tz))"
proof (intro conjI impI allI)
  note new = animate_repelled [OF assms(1,2,3,4,5,6)]
  have d0: "0 \<le> d" unfolding assms(7) by (rule distanceTo_nonneg)
  have swap: "t - (c - p) * g * 2 = t + (p - c) * (2 * g)" for t c p g :: real
    by (simp add: algebra_simps)
  {
    assume near: "d < 25"
    show "0 < force" using near assms(8) by simp
    show "force \<le> 1" using d0 assms(8) by simp
    have f0: "0 \<le> 2 * force" using near assms(8) by simp
    show "particleAt (animate f positions) i =
        updatePosition (px, py, pz)
          (tx + (px - ix (frameInteraction f)) * (2 * force),
           ty + (py - iy (frameInteraction f)) * (2 * force),
           tz + (pz - iz (frameInteraction f)) * (2 * force))"
      using new near unfolding assms(8) assms(7) by (simp only: if_True swap)
    show "sqrt (((px - ix (frameInteraction f)) * (2 * force))\<^sup>2
            + ((py - iy (frameInteraction f)) * (2 * force))\<^sup>2
            + ((pz - iz (frameInteraction f)) * (2 * force))\<^sup>2) = 2 * force * d"
      unfolding push_length [OF f0] assms(7) distanceTo_from_particle ..
    show "2 * force * d = 2 * d * (25 - d) / 25" unfolding assms(8) by simp
    have length_eq: "2 * force * d = 2 * d * (25 - d) / 25" unfolding assms(8) by simp
    show "2 * force * d \<le> 12.5" unfolding length_eq by (rule push_at_most)
  }
  {
    fix qx qy qz ux uy uz :: real and k :: nat
    assume near: "d < 25" and closer: "distanceTo (frameInteraction f) (qx, qy, qz) < d"
    let ?g = "(25 - distanceTo (frameInteraction f) (qx, qy, qz)) / 25"
    have "force < ?g" using closer unfolding assms(8) by (simp add: divide_strict_right_mono)
    moreover have "?g \<le> 1" using distanceTo_nonneg [of "frameInteraction f" "(qx, qy, qz)"] by simp
    moreover have "fst (interactionTarget (frameRandom f) (frameInteraction f)
          (qx, qy, qz) (ux, uy, uz) k)
        = (ux + (qx - ix (frameInteraction f)) * (2 * ?g),
           uy + (qy - iy (frameInteraction f)) * (2 * ?g),
           uz + (qz - iz (frameInteraction f)) * (2 * ?g))"
      using near closer unfolding interactionTarget_repel [OF assms(3,4)]
      by (simp only: swap) simp
    ultimately show "\<exists>closerForce. force < closerForce \<and> closerForce \<le> 1
        \<and> fst (interactionTarget (frameRandom f) (frameInteraction f)
                 (qx, qy, qz) (ux, uy, uz) k)
          = (ux + (qx - ix (frameInteraction f)) * (2 * closerForce),
             uy + (qy - iy (frameInteraction f)) * (2 * closerForce),
             uz + (qz - iz (frameInteraction f)) * (2 * closerForce))"
      by (intro exI [of _ ?g] conjI)
  }
  {
    assume "25 \<le> d"
    then show "particleAt (animate f positions) i = updatePosition (px, py, pz) (tx, ty, tz)"
      using new unfolding assms(7) by simp
  }
qed

theorem repulsion_offsets_target_witness:
  "length (replicate (PARTICLE_COUNT * 3) (30::real)) = PARTICLE_COUNT * 3
   \<and> 0 < PARTICLE_COUNT
   \<and> isActive (frameInteraction
        (frameWith \<lparr>ix = 30, iy = 18, iz = 30, isActive = True, isAttracting = False\<rparr>))
   \<and> \<not> isAttracting (frameInteraction
        (frameWith \<lparr>ix = 30, iy = 18, iz = 30, isActive = True, isAttracting = False\<rparr>))
   \<and> particleAt (replicate (PARTICLE_COUNT * 3) 30) 0 = (30, 30, 30)
   \<and> distanceTo \<lparr>ix = 30, iy = 18, iz = 30, isActive = True, isAttracting = False\<rparr> (30, 30, 30)
      = 12
   \<and> (12::real) < 25
   \<and> particleAt
        (animate (frameWith \<lparr>ix = 30, iy = 18, iz = 30, isActive = True, isAttracting = False\<rparr>)
          (replicate (PARTICLE_COUNT * 3) 30)) 0
      = updatePosition (30, 30, 30) (0, 1 / 2 + 12 * (26 / 25), 0)
   \<and> 2 * (13 / 25) * (12::real) \<le> 12.5"
proof -
  let ?ia = "\<lparr>ix = 30, iy = 18, iz = 30, isActive = True, isAttracting = False\<rparr>"
  let ?f = "frameWith ?ia"
  let ?p = "replicate (PARTICLE_COUNT * 3) (30::real)"
  have h1: "length ?p = PARTICLE_COUNT * 3" by simp
  have h2: "0 < PARTICLE_COUNT" by (simp add: PARTICLE_COUNT_def)
  have h3: "isActive (frameInteraction ?f)" by (simp add: frameWith_def)
  have h4: "\<not> isAttracting (frameInteraction ?f)" by (simp add: frameWith_def)
  have h5: "particleAt ?p 0 = (30, 30, 30)" using h2 by (rule particleAt_replicate)
  have "particleAt (frameTarget ?f) 0 = (0, 0, 0)"
    using h2 by (simp add: frameWith_def particleAt_replicate)
  then have h6: "noiseTarget (frameTime ?f) 0 (particleAt (frameTarget ?f) 0) = (0, 1 / 2, 0)"
    by (simp add: noiseTarget_def frameWith_def)
  have dist: "distanceTo ?ia (30, 30, 30) = 12" by (simp add: distanceTo_def sqrt_144)
  have h7: "12 = distanceTo (frameInteraction ?f) (30, 30, 30)"
    using dist by (simp add: frameWith_def)
  have h8: "13 / 25 = (25 - 12) / (25::real)" by simp
  note push = repulsion_offsets_target [OF h1 h2 h3 h4 h5 h6 h7 h8]
  have close: "(12::real) < 25" by simp
  note near = push [THEN conjunct1, THEN mp, OF close]
  have moved: "particleAt (animate ?f ?p) 0
      = updatePosition (30, 30, 30) (0, 1 / 2 + 12 * (26 / 25), 0)"
    using near [THEN conjunct2, THEN conjunct2, THEN conjunct1] by (simp add: frameWith_def)
  note bound = near [THEN conjunct2, THEN conjunct2, THEN conjunct2, THEN conjunct2,
      THEN conjunct2, THEN conjunct1]
  show ?thesis by (intro conjI h1 h2 h3 h4 h5 dist close moved bound)
qed

text \<open>
  Closer is not pushed harder. With the interaction point at \<open>(0, 0, 30)\<close>, not
  attracting, and an all-zero target at clock 0, the particle at distance 5 has its
  target pushed by 8 along \<open>z\<close>, the particle at distance 10 by 12. The drift acts on
  \<open>x\<close> and \<open>y\<close> only.
\<close>

theorem closer_not_pushed_harder_counterexample:
  "distanceTo \<lparr>ix = 0, iy = 0, iz = 30, isActive = True, isAttracting = False\<rparr> (0, 0, 25) = 5
   \<and> distanceTo \<lparr>ix = 0, iy = 0, iz = 30, isActive = True, isAttracting = False\<rparr> (0, 0, 20) = 10
   \<and> particleAt twoParticlesNearDepth 0 = (0, 0, 25)
   \<and> particleAt twoParticlesNearDepth 1 = (0, 0, 20)
   \<and> noiseTarget 0 0 (0, 0, 0) = (0, 1 / 2, 0)
   \<and> noiseTarget 0 1 (0, 0, 0) = (sin 1 * 0.5, cos 1 * 0.5, 0)
   \<and> particleAt
        (animate (frameWith \<lparr>ix = 0, iy = 0, iz = 30, isActive = True, isAttracting = False\<rparr>)
          twoParticlesNearDepth) 0
      = updatePosition (0, 0, 25) (0, 1 / 2, 0 - 8)
   \<and> particleAt
        (animate (frameWith \<lparr>ix = 0, iy = 0, iz = 30, isActive = True, isAttracting = False\<rparr>)
          twoParticlesNearDepth) 1
      = updatePosition (0, 0, 20) (sin 1 * 0.5, cos 1 * 0.5, 0 - 12)
   \<and> fst (interactionTarget (\<lambda>n. 1 / 2)
            \<lparr>ix = 0, iy = 0, iz = 30, isActive = True, isAttracting = False\<rparr>
            (0, 0, 30) (0, 0, 0) 0) = (0, 0, 0)
   \<and> fst (interactionTarget (\<lambda>n. 1 / 2)
            \<lparr>ix = 0, iy = 0, iz = 30, isActive = True, isAttracting = False\<rparr>
            (0, 0, 25) (0, 0, 0) 0) = (0, 0, - 8)
   \<and> fst (interactionTarget (\<lambda>n. 1 / 2)
            \<lparr>ix = 0, iy = 0, iz = 30, isActive = True, isAttracting = False\<rparr>
            (0, 0, 20) (0, 0, 0) 0) = (0, 0, - 12)"
proof -
  let ?ia = "\<lparr>ix = 0, iy = 0, iz = 30, isActive = True, isAttracting = False\<rparr>"
  let ?f = "frameWith ?ia"
  let ?p = "twoParticlesNearDepth"
  have d5: "distanceTo ?ia (0, 0, 25) = 5" by (simp add: distanceTo_def sqrt_25)
  have d10: "distanceTo ?ia (0, 0, 20) = 10" by (simp add: distanceTo_def sqrt_100)
  have d0: "distanceTo ?ia (0, 0, 30) = 0" by (simp add: distanceTo_def)
  have len: "length ?p = PARTICLE_COUNT * 3"
    by (simp add: twoParticlesNearDepth_def PARTICLE_COUNT_def)
  have i0: "0 < PARTICLE_COUNT" and i1: "1 < PARTICLE_COUNT"
    by (simp_all add: PARTICLE_COUNT_def)
  have p0: "particleAt ?p 0 = (0, 0, 25)"
    by (simp add: twoParticlesNearDepth_def particleAt_def Let_def)
  have p1: "particleAt ?p 1 = (0, 0, 20)"
    by (simp add: twoParticlesNearDepth_def particleAt_def Let_def nth_append)
  have active: "isActive (frameInteraction ?f)" "\<not> isAttracting (frameInteraction ?f)"
    by (simp_all add: frameWith_def)
  have n0: "noiseTarget 0 0 (0, 0, 0) = (0, 1 / 2, 0)" by (simp add: noiseTarget_def)
  have n1: "noiseTarget 0 1 (0, 0, 0) = (sin 1 * 0.5, cos 1 * 0.5, 0)"
    by (simp add: noiseTarget_def)
  have t0: "noiseTarget (frameTime ?f) 0 (particleAt (frameTarget ?f) 0) = (0, 1 / 2, 0)"
    using i0 n0 by (simp add: frameWith_def particleAt_replicate)
  have t1: "noiseTarget (frameTime ?f) 1 (particleAt (frameTarget ?f) 1)
      = (sin 1 * 0.5, cos 1 * 0.5, 0)"
    using i1 n1 by (simp add: frameWith_def particleAt_replicate)
  have fi: "frameInteraction ?f = ?ia" by (simp add: frameWith_def)
  have a0: "particleAt (animate ?f ?p) 0 = updatePosition (0, 0, 25) (0, 1 / 2, 0 - 8)"
    using animate_repelled [OF len i0 active p0 t0] unfolding fi d5 by simp
  have a1: "particleAt (animate ?f ?p) 1
      = updatePosition (0, 0, 20) (sin 1 * 0.5, cos 1 * 0.5, 0 - 12)"
    using animate_repelled [OF len i1 active p1 t1] unfolding fi d10 by simp
  have act: "isActive ?ia" "\<not> isAttracting ?ia" by simp_all
  have e0: "fst (interactionTarget (\<lambda>n. 1 / 2) ?ia (0, 0, 30) (0, 0, 0) 0) = (0, 0, 0)"
    unfolding interactionTarget_repel [OF act] d0 by simp
  have e5: "fst (interactionTarget (\<lambda>n. 1 / 2) ?ia (0, 0, 25) (0, 0, 0) 0) = (0, 0, - 8)"
    unfolding interactionTarget_repel [OF act] d5 by simp
  have e10: "fst (interactionTarget (\<lambda>n. 1 / 2) ?ia (0, 0, 20) (0, 0, 0) 0) = (0, 0, - 12)"
    unfolding interactionTarget_repel [OF act] d10 by simp
  show ?thesis by (intro conjI d5 d10 p0 p1 n0 n1 a0 a1 e0 e5 e10)
qed

section \<open>Runs of frames\<close>

lemma length_frames:
  "length positions = PARTICLE_COUNT * 3 \<Longrightarrow>
   length (fold animate fs positions) = PARTICLE_COUNT * 3"
  by (induction fs arbitrary: positions) (simp_all add: length_animate)

lemma animate_inactive:
  assumes "length positions = PARTICLE_COUNT * 3" and "i < PARTICLE_COUNT"
    and "\<not> isActive (frameInteraction f)"
  shows "particleAt (animate f positions) i =
     updatePosition (particleAt positions i)
       (noiseTarget (frameTime f) i (particleAt (frameTarget f) i))"
  using animate_particle [OF assms(1,2), of f] assms(3)
  by (auto simp: interactionTarget_inactive)

lemma abs_weighted:
  fixes a b x y :: real
  assumes "0 \<le> a" and "0 \<le> b"
  shows "\<bar>a * x + b * y\<bar> \<le> a * \<bar>x\<bar> + b * \<bar>y\<bar>"
proof -
  have "\<bar>a * x + b * y\<bar> \<le> \<bar>a * x\<bar> + \<bar>b * y\<bar>" by (rule abs_triangle_ineq)
  also have "\<dots> = a * \<bar>x\<bar> + b * \<bar>y\<bar>" using assms by (simp add: abs_mult)
  finally show ?thesis .
qed

lemma drift_axis:
  fixes x t s :: real
  assumes "\<bar>x - t\<bar> \<le> 0.5" and "\<bar>s\<bar> \<le> 1"
  shows "\<bar>x + (t + s * 0.5 - x) * 0.05 - t\<bar> \<le> 0.5"
proof -
  have "x + (t + s * 0.5 - x) * 0.05 - t = 19 / 20 * (x - t) + 1 / 40 * s"
    by (simp add: field_simps)
  moreover have "\<bar>19 / 20 * (x - t) + 1 / 40 * s\<bar> \<le> 19 / 20 * \<bar>x - t\<bar> + 1 / 40 * \<bar>s\<bar>"
    by (rule abs_weighted) simp_all
  ultimately show ?thesis using assms by simp
qed

lemma attract_axis:
  fixes x c u :: real
  assumes "0 \<le> u" and "u < 1"
  shows "\<bar>x + (c + (u - 0.5) * 5 - x) * 0.05 - c\<bar> - 2.5 \<le> 0.95 * (\<bar>x - c\<bar> - 2.5)"
proof -
  have "x + (c + (u - 0.5) * 5 - x) * 0.05 - c = 19 / 20 * (x - c) + 1 / 4 * (u - 1 / 2)"
    by (simp add: field_simps)
  moreover have "\<bar>19 / 20 * (x - c) + 1 / 4 * (u - 1 / 2)\<bar>
      \<le> 19 / 20 * \<bar>x - c\<bar> + 1 / 4 * \<bar>u - 1 / 2\<bar>"
    by (rule abs_weighted) simp_all
  moreover have "\<bar>u - 1 / 2\<bar> \<le> 1 / 2" using assms by linarith
  ultimately show ?thesis by simp
qed

text \<open>
  One axis of the squared distance after an attracted step: \<open>q\<close> is the old offset to
  the interaction point, \<open>u\<close> the draw.
\<close>

lemma attract_axis_square:
  fixes c x u :: real
  assumes "(c - x) * (c - x) < 1600" and "0 \<le> u" and "u < 1"
  shows "(c - (x + (c + (u - 0.5) * 5 - x) * 0.05)) * (c - (x + (c + (u - 0.5) * 5 - x) * 0.05))
    \<le> 361 / 400 * ((c - x) * (c - x)) + 10"
proof -
  define q where "q = c - x"
  define j where "j = (u - 1 / 2) * 5"
  have "j = 5 * u - 5 / 2" by (simp add: j_def algebra_simps)
  then have j: "\<bar>j\<bar> \<le> 5 / 2" using assms(2,3) by linarith
  have "q\<^sup>2 < 40\<^sup>2" using assms(1) by (simp add: q_def power2_eq_square)
  then have "\<bar>q\<bar>\<^sup>2 < 40\<^sup>2" by simp
  then have "\<bar>q\<bar> < 40" by (rule power2_less_imp_less) simp
  then have q: "\<bar>q\<bar> \<le> 40" by simp
  have "\<bar>q * j\<bar> \<le> 40 * (5 / 2)"
    unfolding abs_mult using q j by (intro mult_mono) simp_all
  then have cross: "- (q * j) \<le> 100" by linarith
  have "\<bar>j\<bar> * \<bar>j\<bar> \<le> 5 / 2 * (5 / 2)" using j by (intro mult_mono) simp_all
  then have jj: "j * j \<le> 25 / 4" by simp
  have "c - (x + (c + (u - 0.5) * 5 - x) * 0.05) = 19 / 20 * q - 1 / 20 * j"
    by (simp add: q_def j_def field_simps)
  then have "(c - (x + (c + (u - 0.5) * 5 - x) * 0.05)) * (c - (x + (c + (u - 0.5) * 5 - x) * 0.05))
      = (19 / 20 * q - 1 / 20 * j) * (19 / 20 * q - 1 / 20 * j)"
    by simp
  also have "\<dots> = 361 / 400 * (q * q) + 19 / 200 * (- (q * j)) + 1 / 400 * (j * j)"
    by (simp add: algebra_simps)
  also have "\<dots> \<le> 361 / 400 * (q * q) + 10"
    using cross jj by linarith
  finally show ?thesis by (simp add: q_def)
qed

lemma sqrt_less_40: "0 \<le> s \<Longrightarrow> (sqrt s < 40) = (s < 1600)"
proof -
  assume "0 \<le> s"
  have "sqrt 1600 = sqrt (40\<^sup>2)" by simp
  also have "\<dots> = 40" by simp
  finally have "sqrt 1600 = 40" .
  then show ?thesis using real_sqrt_less_iff [of s 1600] by simp
qed


lemma attract_step:
  assumes near: "distanceTo ia (px, py, pz) < 40"
    and u: "0 \<le> u1" "u1 < 1" "0 \<le> u2" "u2 < 1" "0 \<le> u3" "u3 < 1"
    and new: "updatePosition (px, py, pz)
        (ix ia + (u1 - 0.5) * 5, iy ia + (u2 - 0.5) * 5, iz ia + (u3 - 0.5) * 5) = (x, y, z)"
  shows "distanceTo ia (x, y, z) < 40
    \<and> \<bar>x - ix ia\<bar> - 2.5 \<le> 0.95 * (\<bar>px - ix ia\<bar> - 2.5)
    \<and> \<bar>y - iy ia\<bar> - 2.5 \<le> 0.95 * (\<bar>py - iy ia\<bar> - 2.5)
    \<and> \<bar>z - iz ia\<bar> - 2.5 \<le> 0.95 * (\<bar>pz - iz ia\<bar> - 2.5)"
proof -
  have x: "x = px + (ix ia + (u1 - 0.5) * 5 - px) * 0.05"
    and y: "y = py + (iy ia + (u2 - 0.5) * 5 - py) * 0.05"
    and z: "z = pz + (iz ia + (u3 - 0.5) * 5 - pz) * 0.05"
    using new by (simp_all add: updatePosition_def lerpFactor_def)
  let ?sx = "(ix ia - px) * (ix ia - px)"
  let ?sy = "(iy ia - py) * (iy ia - py)"
  let ?sz = "(iz ia - pz) * (iz ia - pz)"
  have nonneg: "0 \<le> ?sx" "0 \<le> ?sy" "0 \<le> ?sz" by simp_all
  have "sqrt (?sx + ?sy + ?sz) < 40" using near by (simp add: distanceTo_def)
  then have total: "?sx + ?sy + ?sz < 1600" using nonneg by (simp add: sqrt_less_40)
  have "?sx < 1600" "?sy < 1600" "?sz < 1600" using total nonneg by linarith+
  then have "(ix ia - x) * (ix ia - x) \<le> 361 / 400 * ?sx + 10"
    and "(iy ia - y) * (iy ia - y) \<le> 361 / 400 * ?sy + 10"
    and "(iz ia - z) * (iz ia - z) \<le> 361 / 400 * ?sz + 10"
    unfolding x y z using u by (simp_all only: attract_axis_square)
  then have "(ix ia - x) * (ix ia - x) + (iy ia - y) * (iy ia - y) + (iz ia - z) * (iz ia - z)
      < 1600"
    using total by linarith
  moreover have "0 \<le> (ix ia - x) * (ix ia - x) + (iy ia - y) * (iy ia - y)
      + (iz ia - z) * (iz ia - z)"
    by simp
  ultimately have "distanceTo ia (x, y, z) < 40"
    by (simp add: distanceTo_def sqrt_less_40)
  moreover have "\<bar>x - ix ia\<bar> - 2.5 \<le> 0.95 * (\<bar>px - ix ia\<bar> - 2.5)"
    unfolding x using u by (intro attract_axis)
  moreover have "\<bar>y - iy ia\<bar> - 2.5 \<le> 0.95 * (\<bar>py - iy ia\<bar> - 2.5)"
    unfolding y using u by (intro attract_axis)
  moreover have "\<bar>z - iz ia\<bar> - 2.5 \<le> 0.95 * (\<bar>pz - iz ia\<bar> - 2.5)"
    unfolding z using u by (intro attract_axis)
  ultimately show ?thesis by (intro conjI)
qed

lemma animate_attracted:
  assumes "length positions = PARTICLE_COUNT * 3" and "i < PARTICLE_COUNT"
    and "isActive (frameInteraction f)" and "isAttracting (frameInteraction f)"
    and "particleAt positions i = (px, py, pz)"
  shows "\<exists>k. particleAt (animate f positions) i =
     updatePosition (px, py, pz)
       (if distanceTo (frameInteraction f) (px, py, pz) < 40
        then (ix (frameInteraction f) + (frameRandom f k - 0.5) * 5,
              iy (frameInteraction f) + (frameRandom f (k + 1) - 0.5) * 5,
              iz (frameInteraction f) + (frameRandom f (k + 2) - 0.5) * 5)
        else noiseTarget (frameTime f) i (particleAt (frameTarget f) i))"
proof -
  obtain k where "particleAt (animate f positions) i =
      updatePosition (px, py, pz)
        (fst (interactionTarget (frameRandom f) (frameInteraction f) (px, py, pz)
               (noiseTarget (frameTime f) i (particleAt (frameTarget f) i)) k))"
    using animate_particle [OF assms(1,2), of f] assms(5) by auto
  then show ?thesis
    unfolding interactionTarget_attract [OF assms(3,4)] by (intro exI)
qed

lemma attract_frames:
  assumes "length positions = PARTICLE_COUNT * 3" and "i < PARTICLE_COUNT"
    and "isActive ia" and "isAttracting ia"
    and "\<forall>f\<in>set fs. frameInteraction f = ia
          \<and> (\<forall>n. 0 \<le> frameRandom f n \<and> frameRandom f n < 1)"
    and "particleAt positions i = (px, py, pz)"
    and "distanceTo ia (px, py, pz) < 40"
  shows "case particleAt (fold animate fs positions) i of (x, y, z) \<Rightarrow>
      distanceTo ia (x, y, z) < 40
      \<and> \<bar>x - ix ia\<bar> - 2.5 \<le> 0.95 ^ length fs * (\<bar>px - ix ia\<bar> - 2.5)
      \<and> \<bar>y - iy ia\<bar> - 2.5 \<le> 0.95 ^ length fs * (\<bar>py - iy ia\<bar> - 2.5)
      \<and> \<bar>z - iz ia\<bar> - 2.5 \<le> 0.95 ^ length fs * (\<bar>pz - iz ia\<bar> - 2.5)"
  using assms
proof (induction fs arbitrary: positions px py pz)
  case Nil
  then show ?case by simp
next
  case (Cons f fs)
  have f: "frameInteraction f = ia" "\<forall>n. 0 \<le> frameRandom f n \<and> frameRandom f n < 1"
    using Cons.prems(5) by simp_all
  obtain k where "particleAt (animate f positions) i =
      updatePosition (px, py, pz)
        (ix ia + (frameRandom f k - 0.5) * 5, iy ia + (frameRandom f (k + 1) - 0.5) * 5,
         iz ia + (frameRandom f (k + 2) - 0.5) * 5)"
    using animate_attracted [OF Cons.prems(1,2), of f px py pz] Cons.prems(3,4,6,7) f(1)
    by auto
  moreover obtain x1 y1 z1 where p1: "particleAt (animate f positions) i = (x1, y1, z1)"
    by (cases "particleAt (animate f positions) i")
  ultimately have new: "updatePosition (px, py, pz)
        (ix ia + (frameRandom f k - 0.5) * 5, iy ia + (frameRandom f (k + 1) - 0.5) * 5,
         iz ia + (frameRandom f (k + 2) - 0.5) * 5) = (x1, y1, z1)"
    by simp
  have step: "distanceTo ia (x1, y1, z1) < 40
      \<and> \<bar>x1 - ix ia\<bar> - 2.5 \<le> 0.95 * (\<bar>px - ix ia\<bar> - 2.5)
      \<and> \<bar>y1 - iy ia\<bar> - 2.5 \<le> 0.95 * (\<bar>py - iy ia\<bar> - 2.5)
      \<and> \<bar>z1 - iz ia\<bar> - 2.5 \<le> 0.95 * (\<bar>pz - iz ia\<bar> - 2.5)"
    using Cons.prems(7) f(2) new by (intro attract_step) simp_all
  have rest: "\<forall>f\<in>set fs. frameInteraction f = ia
      \<and> (\<forall>n. 0 \<le> frameRandom f n \<and> frameRandom f n < 1)"
    using Cons.prems(5) by simp
  have len1: "length (animate f positions) = PARTICLE_COUNT * 3"
    using Cons.prems(1) by (rule length_animate)
  obtain x y z where final: "particleAt (fold animate fs (animate f positions)) i = (x, y, z)"
    by (cases "particleAt (fold animate fs (animate f positions)) i")
  have ih: "distanceTo ia (x, y, z) < 40
      \<and> \<bar>x - ix ia\<bar> - 2.5 \<le> 0.95 ^ length fs * (\<bar>x1 - ix ia\<bar> - 2.5)
      \<and> \<bar>y - iy ia\<bar> - 2.5 \<le> 0.95 ^ length fs * (\<bar>y1 - iy ia\<bar> - 2.5)
      \<and> \<bar>z - iz ia\<bar> - 2.5 \<le> 0.95 ^ length fs * (\<bar>z1 - iz ia\<bar> - 2.5)"
    using Cons.IH [OF len1 Cons.prems(2,3,4) rest p1] step final by simp
  have chain: "a - 2.5 \<le> 0.95 ^ Suc (length fs) * (c - 2.5)"
    if "a - 2.5 \<le> 0.95 ^ length fs * (b - 2.5)" and "b - 2.5 \<le> 0.95 * (c - 2.5)"
    for a b c :: real
  proof -
    note that(1)
    also have "0.95 ^ length fs * (b - 2.5) \<le> 0.95 ^ length fs * (0.95 * (c - 2.5))"
      using that(2) by (intro mult_left_mono) simp_all
    also have "\<dots> = 0.95 ^ Suc (length fs) * (c - 2.5)"
      by (simp only: power_Suc mult.assoc mult.left_commute)
    finally show ?thesis .
  qed
  note ihx = ih [THEN conjunct2, THEN conjunct1]
    and ihy = ih [THEN conjunct2, THEN conjunct2, THEN conjunct1]
    and ihz = ih [THEN conjunct2, THEN conjunct2, THEN conjunct2]
    and stepx = step [THEN conjunct2, THEN conjunct1]
    and stepy = step [THEN conjunct2, THEN conjunct2, THEN conjunct1]
    and stepz = step [THEN conjunct2, THEN conjunct2, THEN conjunct2]
  have result: "distanceTo ia (x, y, z) < 40
      \<and> \<bar>x - ix ia\<bar> - 2.5 \<le> 0.95 ^ Suc (length fs) * (\<bar>px - ix ia\<bar> - 2.5)
      \<and> \<bar>y - iy ia\<bar> - 2.5 \<le> 0.95 ^ Suc (length fs) * (\<bar>py - iy ia\<bar> - 2.5)
      \<and> \<bar>z - iz ia\<bar> - 2.5 \<le> 0.95 ^ Suc (length fs) * (\<bar>pz - iz ia\<bar> - 2.5)"
    by (intro conjI ih [THEN conjunct1] chain [OF ihx stepx] chain [OF ihy stepy]
        chain [OF ihz stepz])
  have unroll: "fold animate (f # fs) positions = fold animate fs (animate f positions)"
    and count: "length (f # fs) = Suc (length fs)"
    by simp_all
  show ?case unfolding unroll count final prod.case by (fact result)
qed

lemma drift_step:
  assumes "updatePosition (x, y, z) (noiseTarget time i (tx, ty, tz)) = (x', y', z')"
    and "\<bar>x - tx\<bar> \<le> 0.5" and "\<bar>y - ty\<bar> \<le> 0.5" and "z = tz"
  shows "\<bar>x' - tx\<bar> \<le> 0.5 \<and> \<bar>y' - ty\<bar> \<le> 0.5 \<and> z' = tz"
proof -
  have x': "x' = x + (tx + sin (time * 2 + real i) * 0.5 - x) * 0.05"
    and y': "y' = y + (ty + cos (time * 1.5 + real i) * 0.5 - y) * 0.05"
    and z': "z' = z + (tz - z) * 0.05"
    using assms(1) by (simp_all add: updatePosition_def noiseTarget_def lerpFactor_def)
  have "\<bar>x' - tx\<bar> \<le> 0.5" unfolding x' using assms(2) by (intro drift_axis) simp_all
  moreover have "\<bar>y' - ty\<bar> \<le> 0.5" unfolding y' using assms(3) by (intro drift_axis) simp_all
  moreover have "z' = tz" unfolding z' using assms(4) by simp
  ultimately show ?thesis by (intro conjI)
qed

lemma drift_frames:
  assumes "length positions = PARTICLE_COUNT * 3" and "i < PARTICLE_COUNT"
    and "\<forall>f\<in>set fs. \<not> isActive (frameInteraction f) \<and> particleAt (frameTarget f) i = (tx, ty, tz)"
    and "particleAt positions i = (x, y, z)"
    and "\<bar>x - tx\<bar> \<le> 0.5" and "\<bar>y - ty\<bar> \<le> 0.5" and "z = tz"
  shows "case particleAt (fold animate fs positions) i of (x', y', z') \<Rightarrow>
      \<bar>x' - tx\<bar> \<le> 0.5 \<and> \<bar>y' - ty\<bar> \<le> 0.5 \<and> z' = tz"
  using assms
proof (induction fs arbitrary: positions x y z)
  case Nil
  then show ?case by simp
next
  case (Cons f fs)
  have f: "\<not> isActive (frameInteraction f)" "particleAt (frameTarget f) i = (tx, ty, tz)"
    using Cons.prems(3) by simp_all
  obtain x1 y1 z1 where p1: "particleAt (animate f positions) i = (x1, y1, z1)"
    by (cases "particleAt (animate f positions) i")
  have "updatePosition (x, y, z) (noiseTarget (frameTime f) i (tx, ty, tz)) = (x1, y1, z1)"
    using animate_inactive [OF Cons.prems(1,2) f(1)] f(2) Cons.prems(4) p1 by simp
  then have step: "\<bar>x1 - tx\<bar> \<le> 0.5 \<and> \<bar>y1 - ty\<bar> \<le> 0.5 \<and> z1 = tz"
    using Cons.prems(5,6,7) by (rule drift_step)
  have rest: "\<forall>f\<in>set fs. \<not> isActive (frameInteraction f)
      \<and> particleAt (frameTarget f) i = (tx, ty, tz)"
    using Cons.prems(3) by simp
  have len1: "length (animate f positions) = PARTICLE_COUNT * 3"
    using Cons.prems(1) by (rule length_animate)
  have unroll: "fold animate (f # fs) positions = fold animate fs (animate f positions)"
    by simp
  show ?case unfolding unroll
    by (rule Cons.IH [OF len1 Cons.prems(2) rest p1 step [THEN conjunct1]
          step [THEN conjunct2, THEN conjunct1] step [THEN conjunct2, THEN conjunct2]])
qed

lemma geometric_bound_limit:
  "(\<lambda>n. 2.5 + 0.95 ^ n * (e - 2.5)) \<longlonglongrightarrow> (2.5::real)"
proof -
  have "(\<lambda>n. (0.95::real) ^ n) \<longlonglongrightarrow> 0" by (rule LIMSEQ_realpow_zero) simp_all
  then have "(\<lambda>n. (0.95::real) ^ n * (e - 2.5)) \<longlonglongrightarrow> 0 * (e - 2.5)"
    by (intro tendsto_mult tendsto_const)
  then have "(\<lambda>n. 2.5 + (0.95::real) ^ n * (e - 2.5)) \<longlonglongrightarrow> 2.5 + 0 * (e - 2.5)"
    by (intro tendsto_add tendsto_const)
  then show ?thesis by simp
qed

section \<open>Claims about the per-frame update\<close>

text \<open>
  C6. With interaction inactive and a particle sitting on its target, one frame moves
  it by the drift term times \<open>lerpFactor\<close> and nothing else: \<open>sin (2 t + i) * 0.5\<close> on x,
  \<open>cos (1.5 t + i) * 0.5\<close> on y (each within 0.5 in absolute value), nothing on z. Over
  any run of frames without interaction and with the same target, the particle stays
  within 0.5 of its target on every axis.
\<close>

theorem resting_particle_only_drifts:
  assumes "length positions = PARTICLE_COUNT * 3" and "i < PARTICLE_COUNT"
    and "\<not> isActive (frameInteraction f)" and "frameTarget f = target"
    and "\<forall>g\<in>set fs. \<not> isActive (frameInteraction g) \<and> frameTarget g = target"
    and "particleAt target i = (tx, ty, tz)"
    and "particleAt positions i = particleAt target i"
  shows "particleAt (animate f positions) i =
        (tx + sin (frameTime f * 2 + real i) * 0.5 * lerpFactor,
         ty + cos (frameTime f * 1.5 + real i) * 0.5 * lerpFactor,
         tz)
    \<and> \<bar>sin (frameTime f * 2 + real i) * 0.5\<bar> \<le> 0.5
    \<and> \<bar>cos (frameTime f * 1.5 + real i) * 0.5\<bar> \<le> 0.5
    \<and> (case particleAt (fold animate fs positions) i of (x, y, z) \<Rightarrow>
          \<bar>x - tx\<bar> \<le> 0.5 \<and> \<bar>y - ty\<bar> \<le> 0.5 \<and> \<bar>z - tz\<bar> \<le> 0.5)"
proof (intro conjI)
  have at: "particleAt positions i = (tx, ty, tz)" using assms(6,7) by simp
  have "particleAt (animate f positions) i =
      updatePosition (tx, ty, tz) (noiseTarget (frameTime f) i (tx, ty, tz))"
    using animate_inactive [OF assms(1,2,3)] at assms(4,6) by simp
  then show "particleAt (animate f positions) i =
        (tx + sin (frameTime f * 2 + real i) * 0.5 * lerpFactor,
         ty + cos (frameTime f * 1.5 + real i) * 0.5 * lerpFactor,
         tz)"
    by (simp add: updatePosition_def noiseTarget_def)
  show "\<bar>sin (frameTime f * 2 + real i) * 0.5\<bar> \<le> 0.5" by (simp add: abs_mult)
  show "\<bar>cos (frameTime f * 1.5 + real i) * 0.5\<bar> \<le> 0.5" by (simp add: abs_mult)
  have frames: "\<forall>g\<in>set fs. \<not> isActive (frameInteraction g)
      \<and> particleAt (frameTarget g) i = (tx, ty, tz)"
    using assms(5,6) by simp
  have "\<bar>tx - tx\<bar> \<le> 0.5" "\<bar>ty - ty\<bar> \<le> 0.5" "tz = tz" by simp_all
  note run = drift_frames [OF assms(1,2) frames at this]
  obtain x y z where final: "particleAt (fold animate fs positions) i = (x, y, z)"
    by (cases "particleAt (fold animate fs positions) i")
  with run have "\<bar>x - tx\<bar> \<le> 0.5 \<and> \<bar>y - ty\<bar> \<le> 0.5 \<and> z = tz" by simp
  then have "\<bar>x - tx\<bar> \<le> 0.5 \<and> \<bar>y - ty\<bar> \<le> 0.5 \<and> \<bar>z - tz\<bar> \<le> 0.5" by simp
  then show "case particleAt (fold animate fs positions) i of (x, y, z) \<Rightarrow>
      \<bar>x - tx\<bar> \<le> 0.5 \<and> \<bar>y - ty\<bar> \<le> 0.5 \<and> \<bar>z - tz\<bar> \<le> 0.5"
    unfolding final prod.case .
qed

theorem resting_particle_only_drifts_witness:
  "length (replicate (PARTICLE_COUNT * 3) (0::real)) = PARTICLE_COUNT * 3
   \<and> 0 < PARTICLE_COUNT
   \<and> \<not> isActive (frameInteraction
          (frameWith \<lparr>ix = 0, iy = 0, iz = 30, isActive = False, isAttracting = False\<rparr>))
   \<and> particleAt (replicate (PARTICLE_COUNT * 3) 0) 0 = (0, 0, 0)
   \<and> particleAt
        (animate (frameWith \<lparr>ix = 0, iy = 0, iz = 30, isActive = False, isAttracting = False\<rparr>)
          (replicate (PARTICLE_COUNT * 3) 0)) 0
      = (0, 1 / 40, 0)
   \<and> (case particleAt
          (fold animate
            [frameWith \<lparr>ix = 0, iy = 0, iz = 30, isActive = False, isAttracting = False\<rparr>,
             frameWith \<lparr>ix = 0, iy = 0, iz = 30, isActive = False, isAttracting = False\<rparr>]
            (replicate (PARTICLE_COUNT * 3) 0)) 0 of
        (x, y, z) \<Rightarrow> \<bar>x - 0\<bar> \<le> 0.5 \<and> \<bar>y - 0\<bar> \<le> 0.5 \<and> \<bar>z - 0\<bar> \<le> 0.5)"
proof -
  let ?f = "frameWith \<lparr>ix = 0, iy = 0, iz = 30, isActive = False, isAttracting = False\<rparr>"
  let ?p = "replicate (PARTICLE_COUNT * 3) (0::real)"
  have h1: "length ?p = PARTICLE_COUNT * 3" by simp
  have h2: "0 < PARTICLE_COUNT" by (simp add: PARTICLE_COUNT_def)
  have h3: "\<not> isActive (frameInteraction ?f)" by (simp add: frameWith_def)
  have h4: "frameTarget ?f = ?p" by (simp add: frameWith_def)
  have h5: "\<forall>g\<in>set [?f, ?f]. \<not> isActive (frameInteraction g) \<and> frameTarget g = ?p"
    using h3 h4 by simp
  have h6: "particleAt ?p 0 = (0, 0, 0)" using h2 by (rule particleAt_replicate)
  have h7: "particleAt ?p 0 = particleAt ?p 0" by simp
  note drift = resting_particle_only_drifts [OF h1 h2 h3 h4 h5 h6 h7]
  have one: "particleAt (animate ?f ?p) 0 = (0, 1 / 40, 0)"
    using drift [THEN conjunct1] by (simp add: frameWith_def lerpFactor_def)
  show ?thesis
    by (intro conjI h1 h2 h3 h6 one
        drift [THEN conjunct2, THEN conjunct2, THEN conjunct2])
qed

text \<open>
  C4. In a frame whose interaction is active and attracting, a particle at distance
  less than 40 from the interaction point moves toward the interaction point plus a
  jitter made of three separate draws, each jitter component in \<open>[-2.5, 2.5)\<close>; its shape
  target and drift play no part. A particle at distance 40 or more moves toward its
  shape target with drift, as without interaction. Over a run of such frames with the
  same interaction point, whatever the targets and the draws, an affected particle stays
  within distance 40 and its offset from the interaction point on each axis is at most
  \<open>2.5 + 0.95 ^ n * (e - 2.5)\<close> after \<open>n\<close> frames, where \<open>e\<close> is the offset at the
  start; this bound tends to 2.5.
\<close>

theorem attraction_overrides_target:
  assumes "length positions = PARTICLE_COUNT * 3" and "i < PARTICLE_COUNT"
    and "isActive ia" and "isAttracting ia"
    and "frameInteraction f = ia" and "\<forall>n. 0 \<le> frameRandom f n \<and> frameRandom f n < 1"
    and "\<forall>g\<in>set fs. frameInteraction g = ia
          \<and> (\<forall>n. 0 \<le> frameRandom g n \<and> frameRandom g n < 1)"
    and "particleAt positions i = (px, py, pz)"
  shows "(distanceTo ia (px, py, pz) < 40 \<longrightarrow>
          (\<exists>k. particleAt (animate f positions) i =
                 updatePosition (px, py, pz)
                   (ix ia + (frameRandom f k - 0.5) * 5,
                    iy ia + (frameRandom f (k + 1) - 0.5) * 5,
                    iz ia + (frameRandom f (k + 2) - 0.5) * 5)
               \<and> - 2.5 \<le> (frameRandom f k - 0.5) * 5 \<and> (frameRandom f k - 0.5) * 5 < 2.5
               \<and> - 2.5 \<le> (frameRandom f (k + 1) - 0.5) * 5
               \<and> (frameRandom f (k + 1) - 0.5) * 5 < 2.5
               \<and> - 2.5 \<le> (frameRandom f (k + 2) - 0.5) * 5
               \<and> (frameRandom f (k + 2) - 0.5) * 5 < 2.5))
    \<and> (40 \<le> distanceTo ia (px, py, pz) \<longrightarrow>
          particleAt (animate f positions) i =
            updatePosition (px, py, pz)
              (noiseTarget (frameTime f) i (particleAt (frameTarget f) i)))
    \<and> (distanceTo ia (px, py, pz) < 40 \<longrightarrow>
          (case particleAt (fold animate fs positions) i of (x, y, z) \<Rightarrow>
             distanceTo ia (x, y, z) < 40
             \<and> \<bar>x - ix ia\<bar> \<le> 2.5 + 0.95 ^ length fs * (\<bar>px - ix ia\<bar> - 2.5)
             \<and> \<bar>y - iy ia\<bar> \<le> 2.5 + 0.95 ^ length fs * (\<bar>py - iy ia\<bar> - 2.5)
             \<and> \<bar>z - iz ia\<bar> \<le> 2.5 + 0.95 ^ length fs * (\<bar>pz - iz ia\<bar> - 2.5)))
    \<and> (\<forall>e. (\<lambda>n. 2.5 + 0.95 ^ n * (e - 2.5)) \<longlonglongrightarrow> (2.5::real))"
proof (intro conjI impI)
  have active: "isActive (frameInteraction f)" "isAttracting (frameInteraction f)"
    using assms(3,4,5) by simp_all
  obtain k where new: "particleAt (animate f positions) i =
      updatePosition (px, py, pz)
        (if distanceTo ia (px, py, pz) < 40
         then (ix ia + (frameRandom f k - 0.5) * 5,
               iy ia + (frameRandom f (k + 1) - 0.5) * 5,
               iz ia + (frameRandom f (k + 2) - 0.5) * 5)
         else noiseTarget (frameTime f) i (particleAt (frameTarget f) i))"
    using animate_attracted [OF assms(1,2) active assms(8)] assms(5) by auto
  have jitter: "- 2.5 \<le> (u - 0.5) * 5 \<and> (u - 0.5) * 5 < 2.5" if "0 \<le> u" and "u < 1"
    for u :: real
    using that by simp
  {
    assume "distanceTo ia (px, py, pz) < 40"
    then have "particleAt (animate f positions) i =
        updatePosition (px, py, pz)
          (ix ia + (frameRandom f k - 0.5) * 5,
           iy ia + (frameRandom f (k + 1) - 0.5) * 5,
           iz ia + (frameRandom f (k + 2) - 0.5) * 5)"
      using new by simp
    moreover have "- 2.5 \<le> (frameRandom f k - 0.5) * 5 \<and> (frameRandom f k - 0.5) * 5 < 2.5"
      using assms(6) by (intro jitter) simp_all
    moreover have "- 2.5 \<le> (frameRandom f (k + 1) - 0.5) * 5
        \<and> (frameRandom f (k + 1) - 0.5) * 5 < 2.5"
      using assms(6) by (intro jitter) simp_all
    moreover have "- 2.5 \<le> (frameRandom f (k + 2) - 0.5) * 5
        \<and> (frameRandom f (k + 2) - 0.5) * 5 < 2.5"
      using assms(6) by (intro jitter) simp_all
    ultimately show "\<exists>k. particleAt (animate f positions) i =
                 updatePosition (px, py, pz)
                   (ix ia + (frameRandom f k - 0.5) * 5,
                    iy ia + (frameRandom f (k + 1) - 0.5) * 5,
                    iz ia + (frameRandom f (k + 2) - 0.5) * 5)
               \<and> - 2.5 \<le> (frameRandom f k - 0.5) * 5 \<and> (frameRandom f k - 0.5) * 5 < 2.5
               \<and> - 2.5 \<le> (frameRandom f (k + 1) - 0.5) * 5
               \<and> (frameRandom f (k + 1) - 0.5) * 5 < 2.5
               \<and> - 2.5 \<le> (frameRandom f (k + 2) - 0.5) * 5
               \<and> (frameRandom f (k + 2) - 0.5) * 5 < 2.5"
      by (intro exI [of _ k]) (simp only: simp_thms)
  }
  {
    assume "40 \<le> distanceTo ia (px, py, pz)"
    then show "particleAt (animate f positions) i =
        updatePosition (px, py, pz)
          (noiseTarget (frameTime f) i (particleAt (frameTarget f) i))"
      using new by simp
  }
  {
    assume near: "distanceTo ia (px, py, pz) < 40"
    obtain x y z where final: "particleAt (fold animate fs positions) i = (x, y, z)"
      by (cases "particleAt (fold animate fs positions) i")
    have run: "distanceTo ia (x, y, z) < 40
        \<and> \<bar>x - ix ia\<bar> - 2.5 \<le> 0.95 ^ length fs * (\<bar>px - ix ia\<bar> - 2.5)
        \<and> \<bar>y - iy ia\<bar> - 2.5 \<le> 0.95 ^ length fs * (\<bar>py - iy ia\<bar> - 2.5)
        \<and> \<bar>z - iz ia\<bar> - 2.5 \<le> 0.95 ^ length fs * (\<bar>pz - iz ia\<bar> - 2.5)"
      using attract_frames [OF assms(1,2,3,4,7,8) near] final by simp
    have shift: "a \<le> 2.5 + b" if "a - 2.5 \<le> b" for a b :: real
      using that by simp
    have "distanceTo ia (x, y, z) < 40
        \<and> \<bar>x - ix ia\<bar> \<le> 2.5 + 0.95 ^ length fs * (\<bar>px - ix ia\<bar> - 2.5)
        \<and> \<bar>y - iy ia\<bar> \<le> 2.5 + 0.95 ^ length fs * (\<bar>py - iy ia\<bar> - 2.5)
        \<and> \<bar>z - iz ia\<bar> \<le> 2.5 + 0.95 ^ length fs * (\<bar>pz - iz ia\<bar> - 2.5)"
      by (intro conjI run [THEN conjunct1]
          shift [OF run [THEN conjunct2, THEN conjunct1]]
          shift [OF run [THEN conjunct2, THEN conjunct2, THEN conjunct1]]
          shift [OF run [THEN conjunct2, THEN conjunct2, THEN conjunct2]])
    then show "case particleAt (fold animate fs positions) i of (x, y, z) \<Rightarrow>
             distanceTo ia (x, y, z) < 40
             \<and> \<bar>x - ix ia\<bar> \<le> 2.5 + 0.95 ^ length fs * (\<bar>px - ix ia\<bar> - 2.5)
             \<and> \<bar>y - iy ia\<bar> \<le> 2.5 + 0.95 ^ length fs * (\<bar>py - iy ia\<bar> - 2.5)
             \<and> \<bar>z - iz ia\<bar> \<le> 2.5 + 0.95 ^ length fs * (\<bar>pz - iz ia\<bar> - 2.5)"
      unfolding final prod.case .
  }
  show "\<forall>e. (\<lambda>n. 2.5 + 0.95 ^ n * (e - 2.5)) \<longlonglongrightarrow> (2.5::real)"
    by (intro allI geometric_bound_limit)
qed

theorem attraction_overrides_target_witness:
  "length (replicate (PARTICLE_COUNT * 3) (10::real)) = PARTICLE_COUNT * 3
   \<and> 0 < PARTICLE_COUNT
   \<and> isActive \<lparr>ix = 0, iy = 0, iz = 30, isActive = True, isAttracting = True\<rparr>
   \<and> isAttracting \<lparr>ix = 0, iy = 0, iz = 30, isActive = True, isAttracting = True\<rparr>
   \<and> particleAt (replicate (PARTICLE_COUNT * 3) 10) 0 = (10, 10, 10)
   \<and> distanceTo \<lparr>ix = 0, iy = 0, iz = 30, isActive = True, isAttracting = True\<rparr> (10, 10, 10)
      < 40
   \<and> (case particleAt
          (fold animate
            [frameWith \<lparr>ix = 0, iy = 0, iz = 30, isActive = True, isAttracting = True\<rparr>,
             frameWith \<lparr>ix = 0, iy = 0, iz = 30, isActive = True, isAttracting = True\<rparr>]
            (replicate (PARTICLE_COUNT * 3) 10)) 0 of
        (x, y, z) \<Rightarrow>
          distanceTo \<lparr>ix = 0, iy = 0, iz = 30, isActive = True, isAttracting = True\<rparr> (x, y, z)
            < 40
          \<and> \<bar>x - 0\<bar> \<le> 2.5 + 0.95 ^ 2 * (\<bar>10 - 0\<bar> - 2.5)
          \<and> \<bar>y - 0\<bar> \<le> 2.5 + 0.95 ^ 2 * (\<bar>10 - 0\<bar> - 2.5)
          \<and> \<bar>z - 30\<bar> \<le> 2.5 + 0.95 ^ 2 * (\<bar>10 - 30\<bar> - 2.5))"
proof -
  let ?ia = "\<lparr>ix = 0, iy = 0, iz = 30, isActive = True, isAttracting = True\<rparr>"
  let ?f = "frameWith ?ia"
  let ?p = "replicate (PARTICLE_COUNT * 3) (10::real)"
  have h1: "length ?p = PARTICLE_COUNT * 3" by simp
  have h2: "0 < PARTICLE_COUNT" by (simp add: PARTICLE_COUNT_def)
  have h3: "isActive ?ia" by simp
  have h4: "isAttracting ?ia" by simp
  have h5: "frameInteraction ?f = ?ia" by (simp add: frameWith_def)
  have h6: "\<forall>n. 0 \<le> frameRandom ?f n \<and> frameRandom ?f n < 1" by (simp add: frameWith_def)
  have h7: "\<forall>g\<in>set [?f, ?f]. frameInteraction g = ?ia
      \<and> (\<forall>n. 0 \<le> frameRandom g n \<and> frameRandom g n < 1)"
    using h5 h6 by simp
  have h8: "particleAt ?p 0 = (10, 10, 10)" using h2 by (rule particleAt_replicate)
  have near: "distanceTo ?ia (10, 10, 10) < 40" by (simp add: distanceTo_def sqrt_less_40)
  note pull = attraction_overrides_target [OF h1 h2 h3 h4 h5 h6 h7 h8]
  note run = pull [THEN conjunct2, THEN conjunct2, THEN conjunct1, THEN mp, OF near]
  have run': "case particleAt (fold animate [?f, ?f] ?p) 0 of
        (x, y, z) \<Rightarrow>
          distanceTo ?ia (x, y, z) < 40
          \<and> \<bar>x - 0\<bar> \<le> 2.5 + 0.95 ^ 2 * (\<bar>10 - 0\<bar> - 2.5)
          \<and> \<bar>y - 0\<bar> \<le> 2.5 + 0.95 ^ 2 * (\<bar>10 - 0\<bar> - 2.5)
          \<and> \<bar>z - 30\<bar> \<le> 2.5 + 0.95 ^ 2 * (\<bar>10 - 30\<bar> - 2.5)"
    using run by (simp add: power2_eq_square)
  show ?thesis by (intro conjI h1 h2 h3 h4 h8 near run')
qed

section \<open>The interaction point in pointer mode\<close>

lemma projectionEntries_signs:
  assumes "0 < near cam" and "near cam < far cam"
  shows "case projectionEntries cam of (sx, sy, c, d) \<Rightarrow> c < - 1 \<and> d < 0"
proof -
  have gap: "0 < far cam - near cam" using assms by simp
  have "far cam - near cam < far cam + near cam" using assms by simp
  then have "1 < (far cam + near cam) / (far cam - near cam)"
    using gap by (simp add: field_simps)
  moreover have "- (far cam + near cam) / (far cam - near cam)
      = - ((far cam + near cam) / (far cam - near cam))"
    by (rule minus_divide_left [symmetric])
  ultimately have c: "- (far cam + near cam) / (far cam - near cam) < - 1" by linarith
  have "0 < 2 * far cam * near cam" using assms by simp
  then have "0 < 2 * far cam * near cam / (far cam - near cam)"
    using gap by (intro divide_pos_pos)
  moreover have "- 2 * far cam * near cam / (far cam - near cam)
      = - (2 * far cam * near cam / (far cam - near cam))"
    by simp
  ultimately have d: "- 2 * far cam * near cam / (far cam - near cam) < 0" by linarith
  from c d show ?thesis by (simp add: projectionEntries_def Let_def)
qed

lemma unproject_centre:
  assumes "position cam = (0, 0, D)" and "0 < near cam" and "near cam < far cam"
  shows "\<exists>w. 0 < w \<and> unproject cam (0, 0, 0.5) = (0, 0, D - w)"
proof -
  obtain sx sy c d where entries: "projectionEntries cam = (sx, sy, c, d)"
    by (cases "projectionEntries cam")
  have signs: "c < - 1" "d < 0"
    using projectionEntries_signs [OF assms(2,3)] entries by simp_all
  let ?w = "1 / (0.5 / d + c / d)"
  have "0.5 + c < 0" using signs(1) by simp
  then have "0 < (0.5 + c) / d" using signs(2) by (rule divide_neg_neg)
  then have "0 < 0.5 / d + c / d" by (simp only: add_divide_distrib)
  then have "0 < ?w" by (simp only: zero_less_divide_1_iff)
  moreover have "unproject cam (0, 0, 0.5) = (0, 0, D - ?w)"
    unfolding unproject_def entries assms(1) Let_def prod.case add_def by simp
  ultimately show ?thesis by (intro exI [of _ ?w] conjI)
qed

lemma normalize_down: "0 < w \<Longrightarrow> normalizeVec (0, 0, - w) = (0, 0, - 1)"
  by (simp add: normalizeVec_def multiplyScalar_def)

text \<open>
  C8. For a camera on the z-axis at any distance \<open>D\<close>, looking along \<open>-z\<close>, with a
  valid frustum (\<open>0 < near < far\<close>), field of view (between 0 and 180 degrees) and
  aspect ratio, a pointer at the screen centre resolves to the world point \<open>(0, 0, 0)\<close>
  on the plane \<open>z = 0\<close>: the interaction point gets \<open>x = 0\<close> and \<open>y = 0\<close>, its depth
  stays 30, and it is active.
\<close>

theorem pointer_at_centre_resolves_to_origin:
  assumes "position cam = (0, 0, D)"
    and "0 < near cam" and "near cam < far cam"
    and "0 < fov cam" and "fov cam < 180" and "0 < aspect cam"
  shows "mouseWorldPoint cam (0, 0) = (0, 0, 0)
    \<and> ix (locateInteraction mouse cam hand (0, 0) isMouseDown) = 0
    \<and> iy (locateInteraction mouse cam hand (0, 0) isMouseDown) = 0
    \<and> iz (locateInteraction mouse cam hand (0, 0) isMouseDown) = 30
    \<and> isActive (locateInteraction mouse cam hand (0, 0) isMouseDown)"
proof -
  obtain w where w: "0 < w" "unproject cam (0, 0, 0.5) = (0, 0, D - w)"
    using unproject_centre [OF assms(1,2,3)] by auto
  have "sub (unproject cam (0, 0, 0.5)) (position cam) = (0, 0, - w)"
    unfolding w(2) assms(1) sub_def by simp
  then have dir: "normalizeVec (sub (unproject cam (0, 0, 0.5)) (position cam)) = (0, 0, - 1)"
    using w(1) by (simp only: normalize_down)
  have hit: "mouseWorldPoint cam (0, 0) = (0, 0, 0)"
    unfolding mouseWorldPoint_def Let_def fst_conv snd_conv dir
    by (simp add: assms(1) add_def multiplyScalar_def)
  then show ?thesis by (simp add: locateInteraction_def Let_def)
qed

theorem pointer_at_centre_resolves_to_origin_witness:
  "position (sceneCamera (16 / 9)) = (0, 0, 80)
   \<and> 0 < near (sceneCamera (16 / 9)) \<and> near (sceneCamera (16 / 9)) < far (sceneCamera (16 / 9))
   \<and> 0 < fov (sceneCamera (16 / 9)) \<and> fov (sceneCamera (16 / 9)) < 180
   \<and> 0 < aspect (sceneCamera (16 / 9))
   \<and> mouseWorldPoint (sceneCamera (16 / 9)) (0, 0) = (0, 0, 0)
   \<and> ix (locateInteraction mouse (sceneCamera (16 / 9)) lostHand (0, 0) False) = 0
   \<and> iy (locateInteraction mouse (sceneCamera (16 / 9)) lostHand (0, 0) False) = 0
   \<and> iz (locateInteraction mouse (sceneCamera (16 / 9)) lostHand (0, 0) False) = 30"
proof -
  have h1: "position (sceneCamera (16 / 9)) = (0, 0, 80)"
    and h2: "0 < near (sceneCamera (16 / 9))"
    and h3: "near (sceneCamera (16 / 9)) < far (sceneCamera (16 / 9))"
    and h4: "0 < fov (sceneCamera (16 / 9))"
    and h5: "fov (sceneCamera (16 / 9)) < 180"
    and h6: "0 < aspect (sceneCamera (16 / 9))"
    by (simp_all add: sceneCamera_def)
  note centre = pointer_at_centre_resolves_to_origin [OF h1 h2 h3 h4 h5 h6, of lostHand False]
  show ?thesis
    by (intro conjI h1 h2 h3 h4 h5 h6 centre [THEN conjunct1]
        centre [THEN conjunct2, THEN conjunct1]
        centre [THEN conjunct2, THEN conjunct2, THEN conjunct1]
        centre [THEN conjunct2, THEN conjunct2, THEN conjunct2, THEN conjunct1])
qed

text \<open>The modelled unprojection inverts the modelled projection.\<close>

lemma project_unproject:
  assumes "0 < near cam" and "near cam < far cam"
    and "0 < fov cam" and "fov cam < 180" and "0 < aspect cam"
    and "z \<le> 1"
  shows "project cam (unproject cam (x, y, z)) = (x, y, z)"
proof -
  obtain sx sy c d where entries: "projectionEntries cam = (sx, sy, c, d)"
    by (cases "projectionEntries cam")
  obtain cx cy cz where pos: "position cam = (cx, cy, cz)" by (cases "position cam")
  have signs: "c < - 1" "d < 0"
    using projectionEntries_signs [OF assms(1,2)] entries by simp_all
  have "0 < pi / 180 * 0.5 * fov cam" using assms(3) by simp
  moreover have "pi / 180 * 0.5 * fov cam < pi / 2" using assms(4) by simp
  ultimately have tan: "0 < tan (pi / 180 * 0.5 * fov cam)" by (rule tan_gt_zero)
  have sy: "sy = 2 * near cam / (2 * (near cam * tan (pi / 180 * 0.5 * fov cam)))"
    and sx: "sx = 2 * near cam / (aspect cam * (2 * (near cam * tan (pi / 180 * 0.5 * fov cam))))"
    using entries by (simp_all add: projectionEntries_def Let_def)
  have "0 < sy" unfolding sy using assms(1) tan by simp
  moreover have "0 < sx" unfolding sx using assms(1,5) tan by simp
  ultimately have nz: "sx \<noteq> 0" "sy \<noteq> 0" by simp_all
  have zc: "z + c \<noteq> 0" using signs(1) assms(6) by simp
  have dnz: "d \<noteq> 0" using signs(2) by simp
  define w where "w = 1 / (z / d + c / d)"
  have "z / d + c / d = (z + c) / d" by (simp only: add_divide_distrib)
  then have w: "w = d / (z + c)" unfolding w_def by simp
  have "unproject cam (x, y, z) = (x / sx * w + cx, y / sy * w + cy, - w + cz)"
    unfolding unproject_def entries pos Let_def prod.case add_def w_def by simp
  then have "project cam (unproject cam (x, y, z))
      = (sx * (x / sx * w) * (1 / w), sy * (y / sy * w) * (1 / w), (c * (- w) + d) * (1 / w))"
    unfolding project_def entries pos Let_def sub_def by simp
  also have "sx * (x / sx * w) * (1 / w) = x"
    using nz(1) zc dnz unfolding w by simp
  also have "sy * (y / sy * w) * (1 / w) = y"
    using nz(2) zc dnz unfolding w by simp
  also have "(c * (- w) + d) * (1 / w) = z"
  proof -
    have "w \<noteq> 0" unfolding w using zc dnz by simp
    then have "(c * (- w) + d) * (1 / w) = - c + d / w" by (simp add: field_simps)
    moreover have "d / w = z + c" unfolding w using zc dnz by simp
    ultimately show ?thesis by simp
  qed
  finally show ?thesis .
qed

end
